theory Spec2Isabelle
  imports Complex_Main "HOL-Library.Word"
begin

section \<open>Shared framework types (cls\_framework.h)\<close>

text \<open>
  The planning and execution core of the agent framework, function by function.
  Conventions of the embedding:
  \<^item> an object passed by pointer and changed in place is an argument and a component
    of the result; such pointers are not null here (the \<^verbatim>\<open>CLS_ERR_INVALID\<close> answers to
    null arguments are left out), except where \<open>None\<close> is said to stand for null;
  \<^item> every reading of the clock is an argument;
  \<^item> whether an allocation succeeds is an argument;
  \<^item> a function whose C behaviour can be undefined returns an \<open>option\<close>, with
    \<open>None\<close> for the undefined cases.
\<close>

type_synonym u32 = "32 word"
type_synonym u64 = "64 word"

text \<open>The status codes of \<^verbatim>\<open>cls_status_t\<close>, with their numeric values.\<close>

datatype cls_status =
    CLS_OK | CLS_ERR_NOMEM | CLS_ERR_INVALID | CLS_ERR_TIMEOUT | CLS_ERR_OVERFLOW
  | CLS_ERR_NOT_FOUND | CLS_ERR_BUSY | CLS_ERR_SECURITY | CLS_ERR_IO | CLS_ERR_STATE
  | CLS_ERR_INTERNAL

fun status_code :: "cls_status \<Rightarrow> int" where
  "status_code CLS_OK = 0"
| "status_code CLS_ERR_NOMEM = -1"
| "status_code CLS_ERR_INVALID = -2"
| "status_code CLS_ERR_TIMEOUT = -3"
| "status_code CLS_ERR_OVERFLOW = -4"
| "status_code CLS_ERR_NOT_FOUND = -5"
| "status_code CLS_ERR_BUSY = -6"
| "status_code CLS_ERR_SECURITY = -7"
| "status_code CLS_ERR_IO = -8"
| "status_code CLS_ERR_STATE = -9"
| "status_code CLS_ERR_INTERNAL = -99"

definition CLS_IS_OK :: "cls_status \<Rightarrow> bool" where
  "CLS_IS_OK s = (s = CLS_OK)"

text \<open>
  The utility macros, at the type the planner uses them: \<^verbatim>\<open>uint32_t\<close>, where the
  integer constants are converted to unsigned and every comparison is unsigned.
\<close>

definition CLS_MIN :: "u32 \<Rightarrow> u32 \<Rightarrow> u32" where
  "CLS_MIN a b = (if a < b then a else b)"

definition CLS_MAX :: "u32 \<Rightarrow> u32 \<Rightarrow> u32" where
  "CLS_MAX a b = (if a > b then a else b)"

definition CLS_CLAMP :: "u32 \<Rightarrow> u32 \<Rightarrow> u32 \<Rightarrow> u32" where
  "CLS_CLAMP x lo hi = CLS_MIN (CLS_MAX x lo) hi"


section \<open>Action executor (cls\_action.h, cls\_action.c)\<close>

datatype cls_action_status =
    CLS_ACTION_IDLE | CLS_ACTION_RUNNING | CLS_ACTION_SUCCESS | CLS_ACTION_FAILED
  | CLS_ACTION_ROLLEDBACK | CLS_ACTION_TIMEOUT

text \<open>
  A handler function \<^verbatim>\<open>cls_status_t (*)(uint32_t action_id, const void *params, size_t len)\<close>.
  The parameter buffer is opaque (\<open>None\<close> is the null pointer). Whatever the handler
  does outside the executor is a change of a world state \<open>'w\<close>, so that calling it
  once, twice or not at all are different results. Handlers do not touch the executor.
\<close>

type_synonym ('p, 'w) cls_action_fn = "u32 \<Rightarrow> 'p option \<Rightarrow> u64 \<Rightarrow> 'w \<Rightarrow> cls_status \<times> 'w"

record ('p, 'w) cls_action_handler =
  h_action_id :: u32
  name :: string
  execute_fn :: "('p, 'w) cls_action_fn option"
  rollback_fn :: "('p, 'w) cls_action_fn option"
  timeout_ms :: u32
  min_priority :: u32

record cls_action_record =
  exec_id :: u32
  r_action_id :: u32
  r_status :: cls_action_status
  r_started_at :: u64
  r_completed_at :: u64
  duration_us :: u64
  result_code :: int
  rolled_back :: bool

text \<open>
  The executor. \<open>handlers\<close> is the live prefix \<^verbatim>\<open>handlers[0 .. handler_count)\<close> of the
  handler table; \<open>history\<close> is the history array as a map from slot index to record,
  of which the code only touches the slots below \<open>max_history\<close>.
\<close>

record ('p, 'w) cls_action_exec =
  handlers :: "('p, 'w) cls_action_handler list"
  max_handlers :: u32
  history :: "nat \<Rightarrow> cls_action_record"
  history_count :: u32
  max_history :: u32
  next_exec_id :: u32
  total_executed :: u64
  total_success :: u64
  total_failed :: u64
  total_rollbacks :: u64

text \<open>A record of zero bytes, as \<^verbatim>\<open>calloc\<close> and \<^verbatim>\<open>memset\<close> leave it.\<close>

definition zero_record :: cls_action_record where
  "zero_record = \<lparr>exec_id = 0, r_action_id = 0, r_status = CLS_ACTION_IDLE, r_started_at = 0,
     r_completed_at = 0, duration_us = 0, result_code = 0, rolled_back = False\<rparr>"

text \<open>\<open>alloc_handlers\<close> and \<open>alloc_history\<close> say whether the two \<^verbatim>\<open>calloc\<close> calls succeed.\<close>

definition cls_action_init ::
  "u32 \<Rightarrow> u32 \<Rightarrow> bool \<Rightarrow> bool \<Rightarrow> cls_status \<times> ('p, 'w) cls_action_exec option" where
  "cls_action_init max_h max_hist alloc_handlers alloc_history =
     (if max_h = 0 then (CLS_ERR_INVALID, None)
      else if \<not> alloc_handlers then (CLS_ERR_NOMEM, None)
      else if \<not> alloc_history then (CLS_ERR_NOMEM, None)
      else (CLS_OK, Some \<lparr>handlers = [], max_handlers = max_h, history = (\<lambda>_. zero_record),
              history_count = 0, max_history = max_hist, next_exec_id = 1,
              total_executed = 0, total_success = 0, total_failed = 0, total_rollbacks = 0\<rparr>))"

definition cls_action_register ::
  "('p, 'w) cls_action_exec \<Rightarrow> ('p, 'w) cls_action_handler \<Rightarrow> cls_status \<times> ('p, 'w) cls_action_exec" where
  "cls_action_register exec handler =
     (if execute_fn handler = None then (CLS_ERR_INVALID, exec)
      else if unat (max_handlers exec) \<le> length (handlers exec) then (CLS_ERR_OVERFLOW, exec)
      else if list_ex (\<lambda>h. h_action_id h = h_action_id handler) (handlers exec)
        then (CLS_ERR_INVALID, exec)
      else (CLS_OK, exec\<lparr>handlers := handlers exec @ [handler]\<rparr>))"

definition find_handler ::
  "('p, 'w) cls_action_exec \<Rightarrow> u32 \<Rightarrow> ('p, 'w) cls_action_handler option" where
  "find_handler exec action = find (\<lambda>h. h_action_id h = action) (handlers exec)"

text \<open>
  \<^verbatim>\<open>record_action\<close>: the slot is \<^verbatim>\<open>history_count % max_history\<close>, and the count stops
  growing at \<open>max_history\<close>. With \<open>max_history = 0\<close> the remainder is a division by
  zero, undefined in C: the result \<open>None\<close>.
\<close>

definition record_action ::
  "('p, 'w) cls_action_exec \<Rightarrow> cls_action_record \<Rightarrow> ('p, 'w) cls_action_exec option" where
  "record_action exec rec =
     (if max_history exec = 0 then None
      else Some (exec\<lparr>history := (history exec)(unat (history_count exec mod max_history exec) := rec),
                       history_count := (if history_count exec < max_history exec
                                         then history_count exec + 1 else history_count exec)\<rparr>))"

text \<open>
  \<^verbatim>\<open>cls_action_execute\<close>. \<open>t_start\<close> and \<open>t_end\<close> are the two clock readings. The result is
  the returned status, the executor, the record written through \<^verbatim>\<open>record\<close> (\<open>None\<close>:
  not written) and the world; \<open>None\<close> as a whole where C leaves the behaviour undefined
  (a call through a null \<^verbatim>\<open>execute_fn\<close>, the division by zero of \<open>record_action\<close>).
\<close>

definition cls_action_execute ::
  "('p, 'w) cls_action_exec \<Rightarrow> u32 \<Rightarrow> 'p option \<Rightarrow> u64 \<Rightarrow> u64 \<Rightarrow> u64 \<Rightarrow> 'w \<Rightarrow>
     (cls_status \<times> ('p, 'w) cls_action_exec \<times> cls_action_record option \<times> 'w) option" where
  "cls_action_execute exec action params params_len t_start t_end w =
     (case find_handler exec action of
        None \<Rightarrow> Some (CLS_ERR_NOT_FOUND, exec, None, w)
      | Some handler \<Rightarrow>
         (case execute_fn handler of
            None \<Rightarrow> None
          | Some f \<Rightarrow>
             (let rec0 = zero_record\<lparr>exec_id := next_exec_id exec, r_action_id := action,
                           r_started_at := t_start, r_status := CLS_ACTION_RUNNING\<rparr>;
                  exec1 = exec\<lparr>next_exec_id := next_exec_id exec + 1\<rparr>;
                  (result, w') = f action params params_len w;
                  rec1 = rec0\<lparr>r_completed_at := t_end, duration_us := t_end - t_start,
                           result_code := status_code result\<rparr>;
                  rec2 = (if CLS_IS_OK result then rec1\<lparr>r_status := CLS_ACTION_SUCCESS\<rparr>
                          else rec1\<lparr>r_status := CLS_ACTION_FAILED\<rparr>);
                  exec2 = (if CLS_IS_OK result then exec1\<lparr>total_success := total_success exec1 + 1\<rparr>
                           else exec1\<lparr>total_failed := total_failed exec1 + 1\<rparr>);
                  exec3 = exec2\<lparr>total_executed := total_executed exec2 + 1\<rparr>
              in case record_action exec3 rec2 of
                   None \<Rightarrow> None
                 | Some exec4 \<Rightarrow> Some (result, exec4, Some rec2, w'))))"

text \<open>
  The history scan shared by \<^verbatim>\<open>cls_action_rollback\<close> and \<^verbatim>\<open>cls_action_get_record\<close>:
  the first slot \<open>i\<close> with \<^verbatim>\<open>i < history_count && i < max_history\<close> holding the id.
\<close>

definition find_record :: "('p, 'w) cls_action_exec \<Rightarrow> u32 \<Rightarrow> nat option" where
  "find_record exec eid =
     find (\<lambda>i. exec_id (history exec i) = eid)
          [0 ..< min (unat (history_count exec)) (unat (max_history exec))]"

definition cls_action_get_record ::
  "('p, 'w) cls_action_exec \<Rightarrow> u32 \<Rightarrow> cls_status \<times> cls_action_record option" where
  "cls_action_get_record exec eid =
     (case find_record exec eid of
        None \<Rightarrow> (CLS_ERR_NOT_FOUND, None)
      | Some i \<Rightarrow> (CLS_OK, Some (history exec i)))"

definition cls_action_rollback ::
  "('p, 'w) cls_action_exec \<Rightarrow> u32 \<Rightarrow> 'w \<Rightarrow> cls_status \<times> ('p, 'w) cls_action_exec \<times> 'w" where
  "cls_action_rollback exec eid w =
     (case find_record exec eid of
        None \<Rightarrow> (CLS_ERR_NOT_FOUND, exec, w)
      | Some i \<Rightarrow>
         (let rec = history exec i in
          if rolled_back rec then (CLS_ERR_STATE, exec, w)
          else (case find_handler exec (r_action_id rec) of
                  None \<Rightarrow> (CLS_ERR_INVALID, exec, w)
                | Some handler \<Rightarrow>
                   (case rollback_fn handler of
                      None \<Rightarrow> (CLS_ERR_INVALID, exec, w)
                    | Some rb \<Rightarrow>
                       (let (result, w') = rb (r_action_id rec) None 0 w in
                        if CLS_IS_OK result
                        then (result,
                              exec\<lparr>history := (history exec)
                                       (i := rec\<lparr>rolled_back := True, r_status := CLS_ACTION_ROLLEDBACK\<rparr>),
                                   total_rollbacks := total_rollbacks exec + 1\<rparr>,
                              w')
                        else (result, exec, w'))))))"

definition cls_action_stats :: "('p, 'w) cls_action_exec \<Rightarrow> u64 \<times> u64 \<times> u64 \<times> u64" where
  "cls_action_stats exec =
     (total_executed exec, total_success exec, total_failed exec, total_rollbacks exec)"


section \<open>Planner (cls\_planning.h, cls\_planning.c)\<close>

datatype cls_plan_status =
    CLS_PLAN_PENDING | CLS_PLAN_ACTIVE | CLS_PLAN_COMPLETE | CLS_PLAN_FAILED | CLS_PLAN_CANCELLED

text \<open>
  \<^verbatim>\<open>cls_priority_t\<close> is an enumeration without negative members; the planner computes
  with it as an unsigned 32-bit number (it is assigned from and to \<^verbatim>\<open>uint32_t\<close> and
  compared with \<^verbatim>\<open>>\<close>), so that is what a priority is here.
\<close>

definition CLS_PRIORITY_LOW :: u32 where "CLS_PRIORITY_LOW = 0"
definition CLS_PRIORITY_NORMAL :: u32 where "CLS_PRIORITY_NORMAL = 1"
definition CLS_PRIORITY_HIGH :: u32 where "CLS_PRIORITY_HIGH = 2"
definition CLS_PRIORITY_CRITICAL :: u32 where "CLS_PRIORITY_CRITICAL = 3"

text \<open>
  The single-precision arithmetic of the planner. The values of \<^verbatim>\<open>float\<close> are a type
  \<open>'f\<close> and the operations the code uses are the fields of \<open>float_ops\<close>; nothing is
  assumed about them, so every theorem holds for the arithmetic of the machine,
  rounding and NaN included.
\<close>

record 'f float_ops =
  f_zero :: 'f
  f_one :: 'f
  f_lit_0_1 :: 'f
  f_lit_0_8 :: 'f
  f_add :: "'f \<Rightarrow> 'f \<Rightarrow> 'f"
  f_sub :: "'f \<Rightarrow> 'f \<Rightarrow> 'f"
  f_mul :: "'f \<Rightarrow> 'f \<Rightarrow> 'f"
  f_div :: "'f \<Rightarrow> 'f \<Rightarrow> 'f"
  f_lt :: "'f \<Rightarrow> 'f \<Rightarrow> bool"
  f_of_u32 :: "u32 \<Rightarrow> 'f"

text \<open>Exact rational arithmetic, the arithmetic that \<^verbatim>\<open>float\<close> approximates.\<close>

definition exact_ops :: "rat float_ops" where
  "exact_ops = \<lparr>f_zero = 0, f_one = 1, f_lit_0_1 = 1 / 10, f_lit_0_8 = 8 / 10,
     f_add = (+), f_sub = (-), f_mul = (*), f_div = (/), f_lt = (<),
     f_of_u32 = (\<lambda>n. of_nat (unat n))\<rparr>"

record ('f, 'p) cls_decision =
  d_action_id :: u32
  confidence :: 'f
  d_priority :: u32
  d_params_len :: u64
  d_params :: "'p option"

text \<open>
  A task. \<open>depends_on\<close> is the used part \<^verbatim>\<open>depends_on[0 .. dep_count)\<close> of the array of
  eight ids.
\<close>

record ('f, 'p) cls_task =
  task_id :: u32
  t_action_id :: u32
  priority :: u32
  t_status :: cls_plan_status
  cost_estimate :: 'f
  reward_estimate :: 'f
  depends_on :: "u32 list"
  params :: "'p option"
  params_len :: u64
  deadline_us :: u64
  started_at :: u64
  completed_at :: u64

text \<open>
  A plan. \<open>tasks\<close> is the used part \<^verbatim>\<open>tasks[0 .. task_count)\<close> of the task array, whose
  allocated size is \<open>max_tasks\<close>.
\<close>

record ('f, 'p) cls_plan =
  plan_id :: u32
  p_status :: cls_plan_status
  tasks :: "('f, 'p) cls_task list"
  max_tasks :: u32
  total_cost :: 'f
  total_reward :: 'f
  success_probability :: 'f
  created_at :: u64

definition task_count :: "('f, 'p) cls_plan \<Rightarrow> u32" where
  "task_count plan = of_nat (length (tasks plan))"

text \<open>
  The planner: the plan table as a map from slot index to plan, and its counters. A
  \<^verbatim>\<open>cls_plan_t *\<close> into the table is the index of its slot. The goal store is left out.
\<close>

record ('f, 'p) cls_planner =
  plans :: "nat \<Rightarrow> ('f, 'p) cls_plan"
  plan_count :: u32
  max_plans :: u32
  plans_generated :: u64

text \<open>A plan of zero bytes, as \<^verbatim>\<open>memset\<close> leaves it.\<close>

definition zero_plan :: "'f float_ops \<Rightarrow> ('f, 'p) cls_plan" where
  "zero_plan fl = \<lparr>plan_id = 0, p_status = CLS_PLAN_PENDING, tasks = [], max_tasks = 0,
     total_cost = f_zero fl, total_reward = f_zero fl, success_probability = f_zero fl,
     created_at = 0\<rparr>"

subsection \<open>Plan generation\<close>

text \<open>The task written for a decision into slot \<open>n\<close> of a zeroed task array.\<close>

definition task_of_decision :: "'f float_ops \<Rightarrow> nat \<Rightarrow> ('f, 'p) cls_decision \<Rightarrow> ('f, 'p) cls_task" where
  "task_of_decision fl n d =
     \<lparr>task_id = of_nat n + 1,
      t_action_id = d_action_id d,
      priority = CLS_CLAMP (d_priority d div 25) 0 3,
      t_status = CLS_PLAN_PENDING,
      cost_estimate = f_sub fl (f_one fl) (confidence d),
      reward_estimate = confidence d,
      depends_on = [],
      params = d_params d,
      params_len = d_params_len d,
      deadline_us = 0, started_at = 0, completed_at = 0\<rparr>"

text \<open>
  The loop over the decisions. A write at or beyond \<open>max_tasks\<close> leaves the allocated
  array: undefined, \<open>None\<close>.
\<close>

fun gen_tasks ::
  "'f float_ops \<Rightarrow> ('f, 'p) cls_decision list \<Rightarrow> ('f, 'p) cls_plan \<Rightarrow> ('f, 'p) cls_plan option" where
  "gen_tasks fl [] plan = Some plan"
| "gen_tasks fl (d # ds) plan =
     (if f_lt fl (confidence d) (f_lit_0_1 fl) then gen_tasks fl ds plan
      else if unat (max_tasks plan) \<le> length (tasks plan) then None
      else (let task = task_of_decision fl (length (tasks plan)) d
            in gen_tasks fl ds
                 (plan\<lparr>tasks := tasks plan @ [task],
                       total_cost := f_add fl (total_cost plan) (cost_estimate task),
                       total_reward := f_add fl (total_reward plan) (reward_estimate task)\<rparr>)))"

text \<open>
  \<^verbatim>\<open>cls_planner_generate\<close>. \<open>decisions\<close> is \<open>None\<close> for a null pointer and the list of the
  \<^verbatim>\<open>decision_count\<close> decisions otherwise; \<open>now\<close> is the clock reading, \<open>alloc_ok\<close> whether
  \<^verbatim>\<open>calloc\<close> succeeds. The result is the status, the planner and the plan stored through
  \<^verbatim>\<open>out_plan\<close> (the index of its slot; \<open>None\<close>: not written).
\<close>

definition cls_planner_generate ::
  "'f float_ops \<Rightarrow> ('f, 'p) cls_planner \<Rightarrow> ('f, 'p) cls_decision list option \<Rightarrow> u64 \<Rightarrow> bool \<Rightarrow>
     (cls_status \<times> ('f, 'p) cls_planner \<times> nat option) option" where
  "cls_planner_generate fl planner decisions now alloc_ok =
     (case decisions of
        None \<Rightarrow> Some (CLS_ERR_INVALID, planner, None)
      | Some ds \<Rightarrow>
          if ds = [] then Some (CLS_ERR_INVALID, planner, None)
          else if plan_count planner \<ge> max_plans planner then Some (CLS_ERR_OVERFLOW, planner, None)
          else
            (let slot = unat (plan_count planner);
                 plan0 = (zero_plan fl)\<lparr>plan_id := ucast (plans_generated planner) + 1,
                           p_status := CLS_PLAN_PENDING,
                           max_tasks := of_nat (length ds) * 2\<rparr>
             in if \<not> alloc_ok
                then Some (CLS_ERR_NOMEM, planner\<lparr>plans := (plans planner)(slot := plan0)\<rparr>, None)
                else (case gen_tasks fl ds (plan0\<lparr>created_at := now\<rparr>) of
                        None \<Rightarrow> None
                      | Some plan1 \<Rightarrow>
                          (let plan2 = (if task_count plan1 > 0
                                        then plan1\<lparr>success_probability :=
                                               f_div fl (total_reward plan1) (f_of_u32 fl (task_count plan1))\<rparr>
                                        else plan1);
                               plan3 = plan2\<lparr>p_status := CLS_PLAN_ACTIVE\<rparr>
                           in Some (CLS_OK,
                                    planner\<lparr>plans := (plans planner)(slot := plan3),
                                            plan_count := plan_count planner + 1,
                                            plans_generated := plans_generated planner + 1\<rparr>,
                                    Some slot)))))"

subsection \<open>Task selection\<close>

text \<open>
  The two inner loops of \<^verbatim>\<open>cls_plan_next_task\<close>: a dependency is met when some task of
  the plan has its id and is complete, and a task is ready when all of its
  dependencies are met.
\<close>

definition found_complete :: "('f, 'p) cls_plan \<Rightarrow> u32 \<Rightarrow> bool" where
  "found_complete plan dep =
     list_ex (\<lambda>tj. task_id tj = dep \<and> t_status tj = CLS_PLAN_COMPLETE) (tasks plan)"

definition deps_met :: "('f, 'p) cls_plan \<Rightarrow> ('f, 'p) cls_task \<Rightarrow> bool" where
  "deps_met plan t = list_all (found_complete plan) (depends_on t)"

text \<open>The outer loop over the task indices, \<open>best\<close> being the index kept so far.\<close>

fun next_scan :: "('f, 'p) cls_plan \<Rightarrow> nat list \<Rightarrow> nat option \<Rightarrow> nat option" where
  "next_scan plan [] best = best"
| "next_scan plan (i # is) best =
     (let t = tasks plan ! i in
      if t_status t \<noteq> CLS_PLAN_PENDING then next_scan plan is best
      else if \<not> deps_met plan t then next_scan plan is best
      else (case best of
              None \<Rightarrow> next_scan plan is (Some i)
            | Some b \<Rightarrow>
                if priority t > priority (tasks plan ! b) then next_scan plan is (Some i)
                else next_scan plan is best))"

text \<open>\<^verbatim>\<open>cls_plan_next_task\<close>: the status and the index of the task stored through \<^verbatim>\<open>out_task\<close>.\<close>

definition cls_plan_next_task :: "('f, 'p) cls_plan \<Rightarrow> cls_status \<times> nat option" where
  "cls_plan_next_task plan =
     (case next_scan plan [0 ..< length (tasks plan)] None of
        None \<Rightarrow> (CLS_ERR_NOT_FOUND, None)
      | Some b \<Rightarrow> (CLS_OK, Some b))"

subsection \<open>Task completion\<close>

text \<open>The index of the first element satisfying \<open>P\<close>: the loops that return at the first match.\<close>

fun first_index :: "('a \<Rightarrow> bool) \<Rightarrow> 'a list \<Rightarrow> nat option" where
  "first_index P [] = None"
| "first_index P (x # xs) =
     (if P x then Some 0 else (case first_index P xs of None \<Rightarrow> None | Some i \<Rightarrow> Some (Suc i)))"

definition all_done :: "('f, 'p) cls_task list \<Rightarrow> bool" where
  "all_done ts = list_all (\<lambda>t. \<not> (t_status t = CLS_PLAN_PENDING \<or> t_status t = CLS_PLAN_ACTIVE)) ts"

definition any_failed :: "('f, 'p) cls_task list \<Rightarrow> bool" where
  "any_failed ts = list_ex (\<lambda>t. t_status t = CLS_PLAN_FAILED) ts"

definition cls_plan_complete_task ::
  "('f, 'p) cls_plan \<Rightarrow> u32 \<Rightarrow> bool \<Rightarrow> u64 \<Rightarrow> cls_status \<times> ('f, 'p) cls_plan" where
  "cls_plan_complete_task plan tid success now =
     (case first_index (\<lambda>t. task_id t = tid) (tasks plan) of
        None \<Rightarrow> (CLS_ERR_NOT_FOUND, plan)
      | Some i \<Rightarrow>
          (let ts = (tasks plan)[i := (tasks plan ! i)
                       \<lparr>t_status := (if success then CLS_PLAN_COMPLETE else CLS_PLAN_FAILED),
                        completed_at := now\<rparr>];
               plan1 = plan\<lparr>tasks := ts\<rparr>
           in (CLS_OK,
               if all_done ts
               then plan1\<lparr>p_status := (if any_failed ts then CLS_PLAN_FAILED else CLS_PLAN_COMPLETE)\<rparr>
               else plan1)))"

subsection \<open>Replanning\<close>

text \<open>The decision that \<^verbatim>\<open>cls_planner_replan\<close> writes for a task.\<close>

definition fallback_decision :: "'f float_ops \<Rightarrow> ('f, 'p) cls_task \<Rightarrow> ('f, 'p) cls_decision" where
  "fallback_decision fl t =
     \<lparr>d_action_id = t_action_id t,
      confidence = f_mul fl (reward_estimate t) (f_lit_0_8 fl),
      d_priority = priority t,
      d_params_len = params_len t,
      d_params = params t\<rparr>"

text \<open>
  The collecting loop, which also stops when the array \<^verbatim>\<open>fallback_decisions[64]\<close> is
  full; \<open>acc\<close> holds the \<^verbatim>\<open>remaining\<close> decisions written so far.
\<close>

fun collect_fallback ::
  "'f float_ops \<Rightarrow> ('f, 'p) cls_task list \<Rightarrow> ('f, 'p) cls_decision list \<Rightarrow> ('f, 'p) cls_decision list" where
  "collect_fallback fl [] acc = acc"
| "collect_fallback fl (t # ts) acc =
     (if length acc < 64
      then (if t_status t = CLS_PLAN_PENDING \<or> t_status t = CLS_PLAN_FAILED
            then collect_fallback fl ts (acc @ [fallback_decision fl t])
            else collect_fallback fl ts acc)
      else acc)"

text \<open>\<^verbatim>\<open>cls_planner_replan\<close>, for the plan in slot \<open>failed\<close> of the planner's table.\<close>

definition cls_planner_replan ::
  "'f float_ops \<Rightarrow> ('f, 'p) cls_planner \<Rightarrow> nat \<Rightarrow> u64 \<Rightarrow> bool \<Rightarrow>
     (cls_status \<times> ('f, 'p) cls_planner \<times> nat option) option" where
  "cls_planner_replan fl planner failed now alloc_ok =
     (let fallback_decisions = collect_fallback fl (tasks (plans planner failed)) []
      in if fallback_decisions = [] then Some (CLS_ERR_NOT_FOUND, planner, None)
         else cls_planner_generate fl
                (planner\<lparr>plans := (plans planner)(failed := (plans planner failed)\<lparr>p_status := CLS_PLAN_CANCELLED\<rparr>)\<rparr>)
                (Some fallback_decisions) now alloc_ok)"

subsection \<open>Executing a task (cls\_action.c)\<close>

text \<open>
  \<^verbatim>\<open>cls_action_execute_task\<close>. The four clock readings are \<open>t0\<close> (task start), \<open>t1\<close>, \<open>t2\<close>
  (inside \<^verbatim>\<open>cls_action_execute\<close>) and \<open>t3\<close> (task end).
\<close>

definition cls_action_execute_task ::
  "('p, 'w) cls_action_exec \<Rightarrow> ('f, 'p) cls_task \<Rightarrow> u64 \<Rightarrow> u64 \<Rightarrow> u64 \<Rightarrow> u64 \<Rightarrow> 'w \<Rightarrow>
     (cls_status \<times> ('p, 'w) cls_action_exec \<times> ('f, 'p) cls_task \<times> cls_action_record option \<times> 'w) option" where
  "cls_action_execute_task exec task t0 t1 t2 t3 w =
     (let task1 = task\<lparr>started_at := t0, t_status := CLS_PLAN_ACTIVE\<rparr>
      in case cls_action_execute exec (t_action_id task1) (params task1) (params_len task1) t1 t2 w of
           None \<Rightarrow> None
         | Some (status, exec', record, w') \<Rightarrow>
             Some (status, exec',
                   task1\<lparr>completed_at := t3,
                         t_status := (if CLS_IS_OK status then CLS_PLAN_COMPLETE else CLS_PLAN_FAILED)\<rparr>,
                   record, w'))"


section \<open>Notions used to state the properties\<close>

text \<open>A decision survives the filter of the generator when the test \<^verbatim>\<open>confidence < 0.1f\<close> fails.\<close>

definition survives :: "'f float_ops \<Rightarrow> ('f, 'p) cls_decision \<Rightarrow> bool" where
  "survives fl d = (\<not> f_lt fl (confidence d) (f_lit_0_1 fl))"

text \<open>The tasks of consecutive slots, from slot \<open>n\<close> on, for a list of decisions.\<close>

fun number_tasks :: "'f float_ops \<Rightarrow> nat \<Rightarrow> ('f, 'p) cls_decision list \<Rightarrow> ('f, 'p) cls_task list" where
  "number_tasks fl n [] = []"
| "number_tasks fl n (d # ds) = task_of_decision fl n d # number_tasks fl (Suc n) ds"

text \<open>The sum of a list of floats as the code accumulates it: from zero, left to right.\<close>

definition f_sum :: "'f float_ops \<Rightarrow> 'f list \<Rightarrow> 'f" where
  "f_sum fl xs = foldl (f_add fl) (f_zero fl) xs"

text \<open>
  The plan a planner writes for a batch \<open>ds\<close> at time \<open>now\<close>, described by its contents:
  one task per surviving decision in batch order, the two totals, their mean.
\<close>

definition generated_plan ::
  "'f float_ops \<Rightarrow> ('f, 'p) cls_planner \<Rightarrow> ('f, 'p) cls_decision list \<Rightarrow> u64 \<Rightarrow> ('f, 'p) cls_plan" where
  "generated_plan fl planner ds now =
     (let ts = number_tasks fl 0 (filter (survives fl) ds) in
      \<lparr>plan_id = ucast (plans_generated planner) + 1,
       p_status = CLS_PLAN_ACTIVE,
       tasks = ts,
       max_tasks = of_nat (length ds) * 2,
       total_cost = f_sum fl (map cost_estimate ts),
       total_reward = f_sum fl (map reward_estimate ts),
       success_probability =
         (if ts = [] then f_zero fl
          else f_div fl (f_sum fl (map reward_estimate ts)) (f_of_u32 fl (of_nat (length ts)))),
       created_at = now\<rparr>)"

text \<open>
  The priority the specification gives a task: \<open>clamp(round(priority / 25), 0, 3)\<close>,
  rounding to the nearest integer.
\<close>

definition spec_priority :: "u32 \<Rightarrow> int" where
  "spec_priority p = max 0 (min 3 (round (real (unat p) / 25)))"

subsection \<open>Concrete inputs\<close>

definition planner0 :: "(rat, unit) cls_planner" where
  "planner0 = \<lparr>plans = (\<lambda>_. zero_plan exact_ops), plan_count = 0, max_plans = 8, plans_generated = 0\<rparr>"

definition decision_a :: "(rat, unit) cls_decision" where
  "decision_a = \<lparr>d_action_id = 10, confidence = 9 / 10, d_priority = 80, d_params_len = 0, d_params = None\<rparr>"

definition decision_b :: "(rat, unit) cls_decision" where
  "decision_b = \<lparr>d_action_id = 20, confidence = 1 / 20, d_priority = 10, d_params_len = 0, d_params = None\<rparr>"

definition decision_c :: "(rat, unit) cls_decision" where
  "decision_c = \<lparr>d_action_id = 30, confidence = 1 / 2, d_priority = 40, d_params_len = 0, d_params = None\<rparr>"

text \<open>
  The handlers of the test suite: one that always succeeds, one that always fails and a
  rollback function. The world is a counter of handler calls.
\<close>

definition action_ok_fn :: "(unit, nat) cls_action_fn" where
  "action_ok_fn action ps len w = (CLS_OK, Suc w)"

definition action_fail_fn :: "(unit, nat) cls_action_fn" where
  "action_fail_fn action ps len w = (CLS_ERR_INTERNAL, Suc w)"

definition action_rb_fn :: "(unit, nat) cls_action_fn" where
  "action_rb_fn action ps len w = (CLS_OK, Suc w)"

definition handler_ok :: "(unit, nat) cls_action_handler" where
  "handler_ok = \<lparr>h_action_id = 1, name = ''test'', execute_fn = Some action_ok_fn,
     rollback_fn = Some action_rb_fn, timeout_ms = 0, min_priority = 0\<rparr>"

definition handler_fail :: "(unit, nat) cls_action_handler" where
  "handler_fail = \<lparr>h_action_id = 2, name = ''fail'', execute_fn = Some action_fail_fn,
     rollback_fn = None, timeout_ms = 0, min_priority = 0\<rparr>"

text \<open>An executor with history capacity \<open>cap\<close> and the two handlers registered.\<close>

definition exec_with_history :: "u32 \<Rightarrow> (unit, nat) cls_action_exec" where
  "exec_with_history cap =
     snd (cls_action_register
            (snd (cls_action_register (the (snd (cls_action_init 8 cap True True))) handler_ok))
            handler_fail)"

text \<open>\<open>n\<close> executions of action 1 in sequence.\<close>

fun execute_times ::
  "nat \<Rightarrow> (unit, nat) cls_action_exec \<Rightarrow> nat \<Rightarrow> ((unit, nat) cls_action_exec \<times> nat) option" where
  "execute_times 0 exec w = Some (exec, w)"
| "execute_times (Suc n) exec w =
     (case cls_action_execute exec 1 None 0 0 0 w of
        None \<Rightarrow> None
      | Some (status, exec', record, w') \<Rightarrow> execute_times n exec' w')"

definition task_a :: "(rat, unit) cls_task" where
  "task_a = \<lparr>task_id = 1, t_action_id = 77, priority = 3, t_status = CLS_PLAN_PENDING,
     cost_estimate = 1 / 10, reward_estimate = 9 / 10, depends_on = [], params = None,
     params_len = 0, deadline_us = 0, started_at = 0, completed_at = 0\<rparr>"

text \<open>
  Slot \<open>i\<close> is the record that the history holds for an execution id: the first of the
  used slots with that id.
\<close>

definition holds_record :: "('p, 'w) cls_action_exec \<Rightarrow> u32 \<Rightarrow> nat \<Rightarrow> bool" where
  "holds_record exec eid i =
     (i < min (unat (history_count exec)) (unat (max_history exec)) \<and>
      exec_id (history exec i) = eid \<and>
      \<not> list_ex (\<lambda>j. exec_id (history exec j) = eid) [0 ..< i])"

definition no_record :: "('p, 'w) cls_action_exec \<Rightarrow> u32 \<Rightarrow> bool" where
  "no_record exec eid =
     (\<not> list_ex (\<lambda>j. exec_id (history exec j) = eid)
          [0 ..< min (unat (history_count exec)) (unat (max_history exec))])"

text \<open>The tasks that replanning takes over: pending or failed.\<close>

definition unresolved :: "('f, 'p) cls_task \<Rightarrow> bool" where
  "unresolved t = (t_status t = CLS_PLAN_PENDING \<or> t_status t = CLS_PLAN_FAILED)"

text \<open>A planner whose first plan has 65 pending tasks, and one whose plan table is full.\<close>

definition planner65 :: "(rat, unit) cls_planner" where
  "planner65 = planner0\<lparr>plans := (plans planner0)
                   (0 := (zero_plan exact_ops)\<lparr>p_status := CLS_PLAN_ACTIVE, tasks := replicate 65 task_a,
                           max_tasks := 130\<rparr>),
                 plan_count := 1\<rparr>"

definition task_failed :: "(rat, unit) cls_task" where
  "task_failed = task_a\<lparr>t_status := CLS_PLAN_FAILED, reward_estimate := 1 / 2, cost_estimate := 1 / 2\<rparr>"

definition planner_failed :: "(rat, unit) cls_planner" where
  "planner_failed = planner0\<lparr>plans := (plans planner0)
                   (0 := (zero_plan exact_ops)\<lparr>p_status := CLS_PLAN_FAILED, tasks := [task_failed],
                           max_tasks := 2\<rparr>),
                 plan_count := 1\<rparr>"

definition planner_full :: "(rat, unit) cls_planner" where
  "planner_full = planner_failed\<lparr>max_plans := 1\<rparr>"

text \<open>
  Task \<open>i\<close> of a plan is a candidate for execution: it is pending and every id among its
  dependencies is the id of a complete task of the plan.
\<close>

definition candidate :: "('f, 'p) cls_plan \<Rightarrow> nat \<Rightarrow> bool" where
  "candidate plan i =
     (i < length (tasks plan) \<and>
      t_status (tasks plan ! i) = CLS_PLAN_PENDING \<and>
      list_all (\<lambda>d. list_ex (\<lambda>t. task_id t = d \<and> t_status t = CLS_PLAN_COMPLETE) (tasks plan))
        (depends_on (tasks plan ! i)))"

text \<open>
  \<open>b\<close> is the right answer among the first \<open>k\<close> tasks: no index when none is a candidate,
  and otherwise a candidate of the highest priority, the first of those.
\<close>

definition best_among :: "('f, 'p) cls_plan \<Rightarrow> nat \<Rightarrow> nat option \<Rightarrow> bool" where
  "best_among plan k b =
     (case b of
        None \<Rightarrow> \<not> list_ex (candidate plan) [0 ..< k]
      | Some i \<Rightarrow>
          i < k \<and> candidate plan i \<and>
          list_all (\<lambda>j. candidate plan j \<longrightarrow>
                      priority (tasks plan ! j) \<le> priority (tasks plan ! i) \<and>
                      (priority (tasks plan ! j) = priority (tasks plan ! i) \<longrightarrow> i \<le> j))
            [0 ..< k])"

text \<open>
  A plan of four tasks: the first complete, the second pending with low priority, the
  third and fourth pending with high priority, the fourth waiting for a task 9 that
  does not exist; and the third waiting for the complete first.
\<close>

definition plan_four :: "(rat, unit) cls_plan" where
  "plan_four = (zero_plan exact_ops)
     \<lparr>p_status := CLS_PLAN_ACTIVE,
      tasks := [task_a\<lparr>task_id := 1, t_status := CLS_PLAN_COMPLETE\<rparr>,
                task_a\<lparr>task_id := 2, priority := 0\<rparr>,
                task_a\<lparr>task_id := 3, priority := 2, depends_on := [1]\<rparr>,
                task_a\<lparr>task_id := 4, priority := 3, depends_on := [9]\<rparr>,
                task_a\<lparr>task_id := 5, priority := 2\<rparr>],
      max_tasks := 10\<rparr>"

text \<open>A task is terminal when it is neither pending nor active.\<close>

definition terminal :: "('f, 'p) cls_task \<Rightarrow> bool" where
  "terminal t = (t_status t \<noteq> CLS_PLAN_PENDING \<and> t_status t \<noteq> CLS_PLAN_ACTIVE)"

text \<open>The status of a plan after a completion, from its tasks and its status before.\<close>

definition aggregate_status :: "('f, 'p) cls_task list \<Rightarrow> cls_plan_status \<Rightarrow> cls_plan_status" where
  "aggregate_status ts before =
     (if list_all terminal ts
      then (if list_ex (\<lambda>t. t_status t = CLS_PLAN_FAILED) ts then CLS_PLAN_FAILED else CLS_PLAN_COMPLETE)
      else before)"

text \<open>Task \<open>i\<close> is the first task of the list with the given id.\<close>

definition first_with_id :: "('f, 'p) cls_task list \<Rightarrow> u32 \<Rightarrow> nat \<Rightarrow> bool" where
  "first_with_id ts tid i =
     (i < length ts \<and> task_id (ts ! i) = tid \<and> \<not> list_ex (\<lambda>t. task_id t = tid) (take i ts))"

definition plan_two :: "(rat, unit) cls_plan" where
  "plan_two = (zero_plan exact_ops)
     \<lparr>p_status := CLS_PLAN_ACTIVE,
      tasks := [task_a\<lparr>task_id := 1\<rparr>, task_a\<lparr>task_id := 2\<rparr>],
      max_tasks := 4\<rparr>"

section \<open>Properties\<close>

subsection \<open>What the generator writes\<close>

lemma length_number_tasks [simp]: "length (number_tasks fl n ks) = length ks"
  by (induction ks arbitrary: n) auto

lemma number_tasks_Nil_iff [simp]: "(number_tasks fl n ks = []) = (ks = [])"
  by (cases ks) auto

lemma number_tasks_action: "map t_action_id (number_tasks fl n ks) = map d_action_id ks"
  by (induction ks arbitrary: n) (auto simp: task_of_decision_def)

lemma number_tasks_reward: "map reward_estimate (number_tasks fl n ks) = map confidence ks"
  by (induction ks arbitrary: n) (auto simp: task_of_decision_def)

lemma number_tasks_cost:
  "map cost_estimate (number_tasks fl n ks) = map (\<lambda>d. f_sub fl (f_one fl) (confidence d)) ks"
  by (induction ks arbitrary: n) (auto simp: task_of_decision_def)

lemma number_tasks_priority:
  "map (\<lambda>t. unat (priority t)) (number_tasks fl n ks)
     = map (\<lambda>d. unat (CLS_CLAMP (d_priority d div 25) 0 3)) ks"
  by (induction ks arbitrary: n) (auto simp: task_of_decision_def)

text \<open>
  The loop, started on any plan with room for the survivors, appends their tasks and
  adds their estimates to the running totals.
\<close>

lemma gen_tasks_result:
  "length (tasks plan) + length (filter (survives fl) ds) \<le> unat (max_tasks plan) \<Longrightarrow>
   gen_tasks fl ds plan =
     Some (plan\<lparr>tasks := tasks plan @ number_tasks fl (length (tasks plan)) (filter (survives fl) ds),
                total_cost := foldl (f_add fl) (total_cost plan)
                   (map cost_estimate (number_tasks fl (length (tasks plan)) (filter (survives fl) ds))),
                total_reward := foldl (f_add fl) (total_reward plan)
                   (map reward_estimate (number_tasks fl (length (tasks plan)) (filter (survives fl) ds)))\<rparr>)"
proof (induction ds arbitrary: plan)
  case Nil
  then show ?case by simp
next
  case (Cons d ds)
  show ?case
  proof (cases "survives fl d")
    case False
    with Cons show ?thesis by (simp add: survives_def)
  next
    case True
    with Cons.prems have room: "length (tasks plan) < unat (max_tasks plan)" by simp
    let ?plan' = "plan\<lparr>tasks := tasks plan @ [task_of_decision fl (length (tasks plan)) d],
                       total_cost := f_add fl (total_cost plan) (cost_estimate (task_of_decision fl (length (tasks plan)) d)),
                       total_reward := f_add fl (total_reward plan) (reward_estimate (task_of_decision fl (length (tasks plan)) d))\<rparr>"
    have "length (tasks ?plan') + length (filter (survives fl) ds) \<le> unat (max_tasks ?plan')"
      using Cons.prems True by simp
    from Cons.IH [OF this] True room show ?thesis
      by (simp add: survives_def Let_def)
  qed
qed

lemma unat_twice_count:
  assumes "n < 2 ^ 31"
  shows "unat ((of_nat n :: u32) * 2) = 2 * n"
proof -
  have "unat ((of_nat n :: u32) * 2) = (n * 2) mod 2 ^ 32"
    by (simp add: unat_word_ariths unat_of_nat mod_mult_left_eq)
  also have "\<dots> = 2 * n" using assms by simp
  finally show ?thesis .
qed

lemma count_positive:
  assumes "n < 2 ^ 32"
  shows "((of_nat n :: u32) > 0) = (n \<noteq> 0)"
proof -
  have "unat (of_nat n :: u32) = n" using assms by (simp add: unat_of_nat)
  then show ?thesis by (metis unat_0 unat_gt_0 neq0_conv word_gt_0)
qed

text \<open>
  A non-empty batch of fewer than \<open>2^31\<close> decisions (so that \<^verbatim>\<open>decision_count * 2\<close> does
  not wrap), a free slot in the plan table and a successful allocation: the generator
  returns OK and the new slot holds \<open>generated_plan\<close>.
\<close>

lemma generate_accepted:
  assumes "ds \<noteq> []" and "length ds < 2 ^ 31" and "plan_count p < max_plans p"
  shows "cls_planner_generate fl p (Some ds) now True =
           Some (CLS_OK,
                 p\<lparr>plans := (plans p)(unat (plan_count p) := generated_plan fl p ds now),
                   plan_count := plan_count p + 1,
                   plans_generated := plans_generated p + 1\<rparr>,
                 Some (unat (plan_count p)))"
proof -
  let ?ks = "filter (survives fl) ds"
  define plan0 :: "('a, 'b) cls_plan" where
    "plan0 = (zero_plan fl)\<lparr>plan_id := ucast (plans_generated p) + 1,
                   p_status := CLS_PLAN_PENDING, max_tasks := of_nat (length ds) * 2\<rparr>
                \<lparr>created_at := now\<rparr>"
  have cap: "unat (max_tasks plan0) = 2 * length ds"
    using assms(2) by (simp add: unat_twice_count plan0_def)
  have empty: "tasks plan0 = []"
    by (simp add: plan0_def zero_plan_def)
  have le: "length ?ks \<le> length ds" by simp
  have "length ?ks \<le> 2 * length ds" using le by linarith
  then have room: "length (tasks plan0) + length ?ks \<le> unat (max_tasks plan0)"
    unfolding cap empty by simp
  have "length ds < 2 ^ 32"
    using assms(2) by simp
  then have lt: "length ?ks < 2 ^ 32"
    using le by (rule le_less_trans [rotated])
  have pos: "((of_nat (length ?ks) :: u32) > 0) = (?ks \<noteq> [])"
    using count_positive [OF lt] by simp
  have gen: "gen_tasks fl ds plan0 =
      Some (plan0\<lparr>tasks := number_tasks fl 0 ?ks,
                  total_cost := f_sum fl (map cost_estimate (number_tasks fl 0 ?ks)),
                  total_reward := f_sum fl (map reward_estimate (number_tasks fl 0 ?ks))\<rparr>)"
    using gen_tasks_result [OF room] unfolding empty
    by (simp add: f_sum_def plan0_def zero_plan_def)
  have "cls_planner_generate fl p (Some ds) now True =
      (case gen_tasks fl ds plan0 of
         None \<Rightarrow> None
       | Some plan1 \<Rightarrow>
          (let plan2 = (if task_count plan1 > 0
                        then plan1\<lparr>success_probability :=
                               f_div fl (total_reward plan1) (f_of_u32 fl (task_count plan1))\<rparr>
                        else plan1);
               plan3 = plan2\<lparr>p_status := CLS_PLAN_ACTIVE\<rparr>
           in Some (CLS_OK,
                    p\<lparr>plans := (plans p)(unat (plan_count p) := plan3),
                      plan_count := plan_count p + 1,
                      plans_generated := plans_generated p + 1\<rparr>,
                    Some (unat (plan_count p)))))"
    using assms(1,3) unfolding cls_planner_generate_def plan0_def
    by (simp add: Let_def not_le [symmetric] del: not_le)
  also have "\<dots> = Some (CLS_OK,
                 p\<lparr>plans := (plans p)(unat (plan_count p) := generated_plan fl p ds now),
                   plan_count := plan_count p + 1,
                   plans_generated := plans_generated p + 1\<rparr>,
                 Some (unat (plan_count p)))"
    unfolding gen
    by (simp add: Let_def task_count_def pos generated_plan_def plan0_def zero_plan_def)
  finally show ?thesis .
qed

text \<open>
  C1. A batch that the generator accepts (not null, not empty, a free slot in the plan
  table; the allocation succeeds and the count is below \<open>2^31\<close>) yields OK and a plan
  with exactly one task per decision that passes the confidence filter (the source's
  test: not \<^verbatim>\<open>confidence < 0.1f\<close>), in batch order, each with reward estimate equal to
  the confidence and cost estimate \<open>1 - confidence\<close>. The totals are the sums of the
  per-task estimates, and the success probability is the total reward divided by the
  task count, or zero when no decision passes, which is still the OK outcome.
\<close>

theorem generate_plan_contents:
  assumes "ds \<noteq> []" and "length ds < 2 ^ 31" and "plan_count p < max_plans p"
  shows "\<exists>p'. cls_planner_generate fl p (Some ds) now True
                 = Some (CLS_OK, p', Some (unat (plan_count p))) \<and>
           (let plan = plans p' (unat (plan_count p)); ks = filter (survives fl) ds in
              map t_action_id (tasks plan) = map d_action_id ks \<and>
              map reward_estimate (tasks plan) = map confidence ks \<and>
              map cost_estimate (tasks plan) = map (\<lambda>d. f_sub fl (f_one fl) (confidence d)) ks \<and>
              task_count plan = of_nat (length ks) \<and>
              total_cost plan = f_sum fl (map cost_estimate (tasks plan)) \<and>
              total_reward plan = f_sum fl (map reward_estimate (tasks plan)) \<and>
              success_probability plan =
                (if ks = [] then f_zero fl
                 else f_div fl (total_reward plan) (f_of_u32 fl (task_count plan))))"
  unfolding generate_accepted [OF assms]
  by (simp add: generated_plan_def Let_def task_count_def number_tasks_action
      number_tasks_reward number_tasks_cost)

text \<open>
  The scenario of the specification, in exact arithmetic: confidences 0.9 and 0.05 give
  one task, total reward 0.9.
\<close>

theorem generate_plan_contents_witness:
  "\<exists>p'. cls_planner_generate exact_ops planner0 (Some [decision_a, decision_b]) 7 True
            = Some (CLS_OK, p', Some 0) \<and>
         map t_action_id (tasks (plans p' 0)) = [10] \<and>
         map reward_estimate (tasks (plans p' 0)) = [9 / 10] \<and>
         map cost_estimate (tasks (plans p' 0)) = [1 / 10] \<and>
         task_count (plans p' 0) = 1 \<and>
         total_cost (plans p' 0) = 1 / 10 \<and>
         total_reward (plans p' 0) = 9 / 10 \<and>
         success_probability (plans p' 0) = 9 / 10"
proof -
  have h1: "[decision_a, decision_b] \<noteq> []" by simp
  have h2: "length [decision_a, decision_b] < 2 ^ 31" by simp
  have h3: "plan_count planner0 < max_plans planner0" by (simp add: planner0_def)
  from generate_plan_contents [OF h1 h2 h3, of exact_ops 7]
  obtain p' where
    "cls_planner_generate exact_ops planner0 (Some [decision_a, decision_b]) 7 True
       = Some (CLS_OK, p', Some (unat (plan_count planner0)))"
    and "let plan = plans p' (unat (plan_count planner0));
             ks = filter (survives exact_ops) [decision_a, decision_b] in
              map t_action_id (tasks plan) = map d_action_id ks \<and>
              map reward_estimate (tasks plan) = map confidence ks \<and>
              map cost_estimate (tasks plan) = map (\<lambda>d. f_sub exact_ops (f_one exact_ops) (confidence d)) ks \<and>
              task_count plan = of_nat (length ks) \<and>
              total_cost plan = f_sum exact_ops (map cost_estimate (tasks plan)) \<and>
              total_reward plan = f_sum exact_ops (map reward_estimate (tasks plan)) \<and>
              success_probability plan =
                (if ks = [] then f_zero exact_ops
                 else f_div exact_ops (total_reward plan) (f_of_u32 exact_ops (task_count plan)))"
    by blast
  then show ?thesis
    by (intro exI [of _ p'])
       (simp add: planner0_def decision_a_def decision_b_def survives_def exact_ops_def
          f_sum_def Let_def)
qed

subsection \<open>The priority of a generated task\<close>

lemma unat_CLS_CLAMP: "unat (CLS_CLAMP (x div 25) 0 3) = min (unat x div 25) 3"
proof -
  have max0: "CLS_MAX (x div 25) 0 = x div 25"
    by (simp add: CLS_MAX_def word_gt_0)
  have "unat (CLS_MIN (x div 25) 3) = min (unat (x div 25)) 3"
    by (simp add: CLS_MIN_def word_less_nat_alt min_def)
  then show ?thesis
    by (simp add: CLS_CLAMP_def max0 unat_div)
qed

text \<open>
  C7, as the code has it. For every accepted batch, the priority of each created task
  is the decision's priority divided by 25 with the remainder dropped (unsigned integer
  division), capped at 3: \<open>min (priority div 25) 3\<close>. The quotient is rounded down, not
  to the nearest integer.
\<close>

theorem generate_task_priority:
  assumes "ds \<noteq> []" and "length ds < 2 ^ 31" and "plan_count p < max_plans p"
  shows "\<exists>p'. cls_planner_generate fl p (Some ds) now True
                 = Some (CLS_OK, p', Some (unat (plan_count p))) \<and>
           map (\<lambda>t. unat (priority t)) (tasks (plans p' (unat (plan_count p))))
             = map (\<lambda>d. min (unat (d_priority d) div 25) 3) (filter (survives fl) ds)"
  unfolding generate_accepted [OF assms]
  by (simp add: generated_plan_def Let_def number_tasks_priority unat_CLS_CLAMP)

theorem generate_task_priority_witness:
  "\<exists>p'. cls_planner_generate exact_ops planner0 (Some [decision_a, decision_c]) 0 True
            = Some (CLS_OK, p', Some 0) \<and>
         map (\<lambda>t. unat (priority t)) (tasks (plans p' 0)) = [3, 1]"
proof -
  have h1: "[decision_a, decision_c] \<noteq> []" by simp
  have h2: "length [decision_a, decision_c] < 2 ^ 31" by simp
  have h3: "plan_count planner0 < max_plans planner0" by (simp add: planner0_def)
  from generate_task_priority [OF h1 h2 h3, of exact_ops 0]
  obtain p' where
    "cls_planner_generate exact_ops planner0 (Some [decision_a, decision_c]) 0 True
       = Some (CLS_OK, p', Some (unat (plan_count planner0)))"
    and "map (\<lambda>t. unat (priority t)) (tasks (plans p' (unat (plan_count planner0))))
           = map (\<lambda>d. min (unat (d_priority d) div 25) 3)
               (filter (survives exact_ops) [decision_a, decision_c])"
    by blast
  then show ?thesis
    by (intro exI [of _ p'])
       (simp add: planner0_def decision_a_def decision_c_def survives_def exact_ops_def)
qed

text \<open>
  The formula of the specification, with rounding to the nearest integer, fails for a
  decision of priority 40: \<open>40 / 25 = 1.6\<close> rounds to 2, and the generated task has
  priority 1.
\<close>

theorem generate_task_priority_not_rounded:
  "fst (the (cls_planner_generate exact_ops planner0 (Some [decision_c]) 0 True)) = CLS_OK \<and>
   spec_priority (d_priority decision_c) = 2 \<and>
   uint (priority (hd (tasks (plans
      (fst (snd (the (cls_planner_generate exact_ops planner0 (Some [decision_c]) 0 True)))) 0)))) = 1 \<and>
   uint (priority (hd (tasks (plans
      (fst (snd (the (cls_planner_generate exact_ops planner0 (Some [decision_c]) 0 True)))) 0))))
     \<noteq> spec_priority (d_priority decision_c)"
proof -
  have h1: "[decision_c] \<noteq> []" by simp
  have h2: "length [decision_c] < 2 ^ 31" by simp
  have h3: "plan_count planner0 < max_plans planner0" by (simp add: planner0_def)
  have spec: "spec_priority (d_priority decision_c) = 2"
    by (simp add: spec_priority_def decision_c_def round_def)
  show ?thesis
    unfolding generate_accepted [OF h1 h2 h3] spec
    by (simp add: generated_plan_def planner0_def decision_c_def survives_def exact_ops_def
        task_of_decision_def CLS_CLAMP_def CLS_MIN_def CLS_MAX_def)
qed

subsection \<open>The action executor\<close>

lemma exec_with_history_eq:
  "exec_with_history cap =
     \<lparr>handlers = [handler_ok, handler_fail], max_handlers = 8, history = (\<lambda>_. zero_record),
      history_count = 0, max_history = cap, next_exec_id = 1,
      total_executed = 0, total_success = 0, total_failed = 0, total_rollbacks = 0\<rparr>"
  by (simp add: exec_with_history_def cls_action_init_def cls_action_register_def
      handler_ok_def handler_fail_def)

text \<open>
  What \<^verbatim>\<open>record_action\<close> has written can be read back: \<^verbatim>\<open>cls_action_get_record\<close> finds the
  execution id among the used slots.
\<close>

lemma find_record_None: "(find_record exec eid = None) = no_record exec eid"
  by (auto simp: find_record_def no_record_def find_None_iff list_ex_iff)

lemma find_record_Some: "(find_record exec eid = Some i) = holds_record exec eid i"
  by (auto simp: find_record_def holds_record_def find_Some_iff list_ex_iff)

lemma record_action_found:
  assumes "record_action exec rec = Some exec'"
  shows "fst (cls_action_get_record exec' (exec_id rec)) = CLS_OK"
proof -
  from assms have nz: "max_history exec \<noteq> 0"
    and e': "exec' = exec\<lparr>history := (history exec)(unat (history_count exec mod max_history exec) := rec),
                       history_count := (if history_count exec < max_history exec
                                         then history_count exec + 1 else history_count exec)\<rparr>"
    by (auto simp: record_action_def split: if_splits)
  let ?idx = "unat (history_count exec mod max_history exec)"
  have slot: "exec_id (history exec' ?idx) = exec_id rec"
    by (simp add: e')
  have "?idx < min (unat (history_count exec')) (unat (max_history exec'))"
  proof (cases "history_count exec < max_history exec")
    case True
    then have m: "history_count exec mod max_history exec = history_count exec"
      by (rule mod_word_less)
    from True have "unat (history_count exec) < unat (max_history exec)"
      by (simp add: word_less_nat_alt)
    moreover have "unat (history_count exec + 1) = Suc (unat (history_count exec))"
    proof -
      from True have "unat (history_count exec) < unat (max_history exec)"
        by (simp add: word_less_nat_alt)
      moreover have "unat (max_history exec) < 2 ^ 32"
        using unsigned_less [of "max_history exec", where 'a = nat] by simp
      ultimately have "Suc (unat (history_count exec)) < 2 ^ 32" by linarith
      then show ?thesis
        by (simp add: unat_word_ariths)
    qed
    ultimately show ?thesis using True by (simp add: e' m)
  next
    case False
    then have ge: "unat (max_history exec) \<le> unat (history_count exec)"
      by (simp add: word_less_nat_alt)
    from nz have "0 < unat (max_history exec)" by (simp add: unat_gt_0)
    then have "?idx < unat (max_history exec)" by (simp add: unat_mod)
    with ge False show ?thesis by (simp add: e')
  qed
  with slot have "list_ex (\<lambda>j. exec_id (history exec' j) = exec_id rec)
          [0 ..< min (unat (history_count exec')) (unat (max_history exec'))]"
    by (auto simp: list_ex_iff)
  then have "\<not> no_record exec' (exec_id rec)"
    by (simp add: no_record_def)
  then have "find_record exec' (exec_id rec) \<noteq> None"
    by (simp add: find_record_None)
  then show ?thesis
    by (auto simp: cls_action_get_record_def)
qed

text \<open>
  Execute on a history of at least one slot. With no handler registered for the action
  id, execute returns NotFound and changes nothing: no record is written, the executor
  and the world are as before. With a handler registered, execute applies the handler's
  function once to the world and returns the handler's own status; the record, with
  status Success when that status is OK and Failed otherwise, is written into the
  history slot \<^verbatim>\<open>history_count % max_history\<close>, the history count grows by one until it
  reaches the capacity, and \<open>next_exec_id\<close>, \<open>total_executed\<close> and exactly one of
  \<open>total_success\<close> and \<open>total_failed\<close> grow by one. Nothing else in the executor changes,
  and the record can be read back by its execution id.
\<close>

lemma execute_outcome:
  "(find_handler exec action = None \<longrightarrow>
      cls_action_execute exec action ps len t0 t1 w = Some (CLS_ERR_NOT_FOUND, exec, None, w)) \<and>
   (\<forall>h f. find_handler exec action = Some h \<and> execute_fn h = Some f \<and> max_history exec \<noteq> 0 \<longrightarrow>
      (\<exists>exec' rec.
         cls_action_execute exec action ps len t0 t1 w
           = Some (fst (f action ps len w), exec', Some rec, snd (f action ps len w)) \<and>
         rec = \<lparr>exec_id = next_exec_id exec, r_action_id = action,
                 r_status = (if fst (f action ps len w) = CLS_OK
                             then CLS_ACTION_SUCCESS else CLS_ACTION_FAILED),
                 r_started_at = t0, r_completed_at = t1, duration_us = t1 - t0,
                 result_code = status_code (fst (f action ps len w)), rolled_back = False\<rparr> \<and>
         exec' = exec
           \<lparr>history := (history exec)(unat (history_count exec mod max_history exec) := rec),
            history_count := (if history_count exec < max_history exec
                              then history_count exec + 1 else history_count exec),
            next_exec_id := next_exec_id exec + 1,
            total_executed := total_executed exec + 1,
            total_success := (if fst (f action ps len w) = CLS_OK
                              then total_success exec + 1 else total_success exec),
            total_failed := (if fst (f action ps len w) = CLS_OK
                             then total_failed exec else total_failed exec + 1)\<rparr> \<and>
         fst (cls_action_get_record exec' (exec_id rec)) = CLS_OK))"
proof (intro conjI allI impI)
  assume "find_handler exec action = None"
  then show "cls_action_execute exec action ps len t0 t1 w = Some (CLS_ERR_NOT_FOUND, exec, None, w)"
    by (simp add: cls_action_execute_def)
next
  fix h f
  assume a: "find_handler exec action = Some h \<and> execute_fn h = Some f \<and> max_history exec \<noteq> 0"
  let ?res = "fst (f action ps len w)"
  let ?rec = "\<lparr>exec_id = next_exec_id exec, r_action_id = action,
                 r_status = (if ?res = CLS_OK then CLS_ACTION_SUCCESS else CLS_ACTION_FAILED),
                 r_started_at = t0, r_completed_at = t1, duration_us = t1 - t0,
                 result_code = status_code ?res, rolled_back = False\<rparr>"
  let ?pre = "exec\<lparr>next_exec_id := next_exec_id exec + 1,
            total_executed := total_executed exec + 1,
            total_success := (if ?res = CLS_OK then total_success exec + 1 else total_success exec),
            total_failed := (if ?res = CLS_OK then total_failed exec else total_failed exec + 1)\<rparr>"
  let ?exec' = "exec
           \<lparr>history := (history exec)(unat (history_count exec mod max_history exec) := ?rec),
            history_count := (if history_count exec < max_history exec
                              then history_count exec + 1 else history_count exec),
            next_exec_id := next_exec_id exec + 1,
            total_executed := total_executed exec + 1,
            total_success := (if ?res = CLS_OK then total_success exec + 1 else total_success exec),
            total_failed := (if ?res = CLS_OK then total_failed exec else total_failed exec + 1)\<rparr>"
  from a have ra: "record_action ?pre ?rec = Some ?exec'"
    by (simp add: record_action_def)
  from a have ex: "cls_action_execute exec action ps len t0 t1 w
           = Some (?res, ?exec', Some ?rec, snd (f action ps len w))"
    by (simp add: cls_action_execute_def record_action_def CLS_IS_OK_def Let_def zero_record_def
        split: prod.splits)
  from record_action_found [OF ra]
  have "fst (cls_action_get_record ?exec' (exec_id ?rec)) = CLS_OK" .
  with ex show "\<exists>exec' rec.
         cls_action_execute exec action ps len t0 t1 w
           = Some (fst (f action ps len w), exec', Some rec, snd (f action ps len w)) \<and>
         rec = ?rec \<and>
         exec' = exec
           \<lparr>history := (history exec)(unat (history_count exec mod max_history exec) := rec),
            history_count := (if history_count exec < max_history exec
                              then history_count exec + 1 else history_count exec),
            next_exec_id := next_exec_id exec + 1,
            total_executed := total_executed exec + 1,
            total_success := (if fst (f action ps len w) = CLS_OK
                              then total_success exec + 1 else total_success exec),
            total_failed := (if fst (f action ps len w) = CLS_OK
                             then total_failed exec else total_failed exec + 1)\<rparr> \<and>
         fst (cls_action_get_record exec' (exec_id rec)) = CLS_OK"
    by (intro exI [of _ ?exec'] exI [of _ ?rec]) simp
qed

text \<open>
  The scenario of the specification: action 1 always succeeds, action 2 always fails,
  action 3 is not registered. Executing 1 and then 2 gives Success and Failed and the
  statistics executed = 2, success = 1, failed = 1.
\<close>

lemma execute_scenario:
  "cls_action_execute (exec_with_history 32) 3 None 0 5 9 0
      = Some (CLS_ERR_NOT_FOUND, exec_with_history 32, None, 0) \<and>
   (\<exists>e1 r1. cls_action_execute (exec_with_history 32) 1 None 0 5 9 0
               = Some (CLS_OK, e1, Some r1, 1) \<and>
            r_status r1 = CLS_ACTION_SUCCESS \<and>
            fst (cls_action_get_record e1 (exec_id r1)) = CLS_OK \<and>
      (\<exists>e2 r2. cls_action_execute e1 2 None 0 10 12 1
                  = Some (CLS_ERR_INTERNAL, e2, Some r2, 2) \<and>
               r_status r2 = CLS_ACTION_FAILED \<and>
               fst (cls_action_get_record e2 (exec_id r2)) = CLS_OK \<and>
               history_count e2 = 2 \<and>
               cls_action_stats e2 = (2, 1, 1, 0)))"
proof -
  let ?e = "exec_with_history 32 :: (unit, nat) cls_action_exec"
  have none: "find_handler ?e 3 = None"
    by (simp add: exec_with_history_eq find_handler_def handler_ok_def handler_fail_def)
  have ok: "find_handler ?e 1 = Some handler_ok \<and> execute_fn handler_ok = Some action_ok_fn
              \<and> max_history ?e \<noteq> 0"
    by (simp add: exec_with_history_eq find_handler_def handler_ok_def handler_fail_def)
  from execute_outcome [of ?e 3 None 0 5 9 0, THEN conjunct1, rule_format, OF none]
  have first: "cls_action_execute ?e 3 None 0 5 9 0 = Some (CLS_ERR_NOT_FOUND, ?e, None, 0)" .
  from execute_outcome [of ?e 1 None 0 5 9 0, THEN conjunct2, rule_format, OF ok]
  obtain e1 r1 where
    x1: "cls_action_execute ?e 1 None 0 5 9 0
           = Some (fst (action_ok_fn 1 None 0 0), e1, Some r1, snd (action_ok_fn 1 None 0 0))"
    and r1: "r1 = \<lparr>exec_id = next_exec_id ?e, r_action_id = 1,
                 r_status = (if fst (action_ok_fn 1 None 0 0) = CLS_OK
                             then CLS_ACTION_SUCCESS else CLS_ACTION_FAILED),
                 r_started_at = 5, r_completed_at = 9, duration_us = 9 - 5,
                 result_code = status_code (fst (action_ok_fn 1 None 0 0)), rolled_back = False\<rparr>"
    and e1: "e1 = ?e
           \<lparr>history := (history ?e)(unat (history_count ?e mod max_history ?e) := r1),
            history_count := (if history_count ?e < max_history ?e
                              then history_count ?e + 1 else history_count ?e),
            next_exec_id := next_exec_id ?e + 1,
            total_executed := total_executed ?e + 1,
            total_success := (if fst (action_ok_fn 1 None 0 0) = CLS_OK
                              then total_success ?e + 1 else total_success ?e),
            total_failed := (if fst (action_ok_fn 1 None 0 0) = CLS_OK
                             then total_failed ?e else total_failed ?e + 1)\<rparr>"
    and g1: "fst (cls_action_get_record e1 (exec_id r1)) = CLS_OK"
    by (elim exE conjE)
  have fail: "find_handler e1 2 = Some handler_fail \<and> execute_fn handler_fail = Some action_fail_fn
              \<and> max_history e1 \<noteq> 0"
    by (simp add: e1 exec_with_history_eq find_handler_def handler_ok_def handler_fail_def)
  from execute_outcome [of e1 2 None 0 10 12 1, THEN conjunct2, rule_format, OF fail]
  obtain e2 r2 where
    x2: "cls_action_execute e1 2 None 0 10 12 1
           = Some (fst (action_fail_fn 2 None 0 1), e2, Some r2, snd (action_fail_fn 2 None 0 1))"
    and r2: "r2 = \<lparr>exec_id = next_exec_id e1, r_action_id = 2,
                 r_status = (if fst (action_fail_fn 2 None 0 1) = CLS_OK
                             then CLS_ACTION_SUCCESS else CLS_ACTION_FAILED),
                 r_started_at = 10, r_completed_at = 12, duration_us = 12 - 10,
                 result_code = status_code (fst (action_fail_fn 2 None 0 1)), rolled_back = False\<rparr>"
    and e2: "e2 = e1
           \<lparr>history := (history e1)(unat (history_count e1 mod max_history e1) := r2),
            history_count := (if history_count e1 < max_history e1
                              then history_count e1 + 1 else history_count e1),
            next_exec_id := next_exec_id e1 + 1,
            total_executed := total_executed e1 + 1,
            total_success := (if fst (action_fail_fn 2 None 0 1) = CLS_OK
                              then total_success e1 + 1 else total_success e1),
            total_failed := (if fst (action_fail_fn 2 None 0 1) = CLS_OK
                             then total_failed e1 else total_failed e1 + 1)\<rparr>"
    and g2: "fst (cls_action_get_record e2 (exec_id r2)) = CLS_OK"
    by (elim exE conjE)
  have s1: "r_status r1 = CLS_ACTION_SUCCESS"
    by (simp add: r1 action_ok_fn_def)
  have s2: "r_status r2 = CLS_ACTION_FAILED"
    by (simp add: r2 action_fail_fn_def)
  have counts: "history_count e1 = 1" "total_executed e1 = 1" "total_success e1 = 1"
      "total_failed e1 = 0" "total_rollbacks e1 = 0" "max_history e1 = 32"
    by (simp_all add: e1 exec_with_history_eq action_ok_fn_def)
  have stats: "cls_action_stats e2 = (2, 1, 1, 0)" and hc: "history_count e2 = 2"
    by (simp_all add: cls_action_stats_def e2 counts action_fail_fn_def)
  from x1 x2 have y1: "cls_action_execute ?e 1 None 0 5 9 0 = Some (CLS_OK, e1, Some r1, 1)"
    and y2: "cls_action_execute e1 2 None 0 10 12 1 = Some (CLS_ERR_INTERNAL, e2, Some r2, 2)"
    by (simp_all add: action_ok_fn_def action_fail_fn_def)
  from first y1 s1 g1 y2 s2 g2 hc stats show ?thesis
    by (intro conjI exI [of _ e1] exI [of _ r1] exI [of _ e2] exI [of _ r2])
qed

text \<open>
  C4. The executor accepts a history capacity of zero: \<^verbatim>\<open>cls_action_init\<close> rejects
  \<open>max_handlers = 0\<close> only. On such an executor, executing a registered action runs the
  handler and then computes \<^verbatim>\<open>history_count % max_history\<close> with a zero divisor, which
  is undefined: no record is appended and the handler's result is not returned.
\<close>

theorem execute_zero_capacity_undefined:
  "fst (cls_action_init 8 0 True True :: cls_status \<times> (unit, nat) cls_action_exec option) = CLS_OK \<and>
   max_history (the (snd (cls_action_init 8 0 True True :: cls_status \<times> (unit, nat) cls_action_exec option))) = 0 \<and>
   fst (cls_action_register (the (snd (cls_action_init 8 0 True True))) handler_ok) = CLS_OK \<and>
   find_handler (exec_with_history 0) 1 = Some handler_ok \<and>
   cls_action_execute (exec_with_history 0) 1 None 0 0 0 0 = None"
  by (simp add: cls_action_init_def cls_action_register_def exec_with_history_eq handler_ok_def
      handler_fail_def find_handler_def cls_action_execute_def record_action_def Let_def
      action_ok_fn_def CLS_IS_OK_def)

text \<open>
  C10. For a task whose action id has no registered handler, \<open>execute_task\<close> returns
  NotFound; the task is stamped \<open>started_at\<close> and set Active, then stamped
  \<open>completed_at\<close> and set Failed, so it has left Pending; the executor (its history and
  its counters) and the world are unchanged and no record is written.
\<close>

theorem execute_task_unregistered:
  "find_handler exec (t_action_id task) = None \<Longrightarrow>
   cls_action_execute_task exec task t0 t1 t2 t3 w =
     Some (CLS_ERR_NOT_FOUND, exec,
           task\<lparr>started_at := t0, t_status := CLS_PLAN_ACTIVE\<rparr>
               \<lparr>completed_at := t3, t_status := CLS_PLAN_FAILED\<rparr>,
           None, w)"
  by (simp add: cls_action_execute_task_def cls_action_execute_def CLS_IS_OK_def)

theorem execute_task_unregistered_witness:
  "find_handler (exec_with_history 32) (t_action_id task_a) = None \<and>
   cls_action_execute_task (exec_with_history 32) task_a 1 2 3 4 0 =
     Some (CLS_ERR_NOT_FOUND, exec_with_history 32,
           task_a\<lparr>started_at := 1, t_status := CLS_PLAN_ACTIVE\<rparr>
                 \<lparr>completed_at := 4, t_status := CLS_PLAN_FAILED\<rparr>,
           None, 0)"
proof -
  have h: "find_handler (exec_with_history 32) (t_action_id task_a) = None"
    by (simp add: exec_with_history_eq find_handler_def task_a_def handler_ok_def handler_fail_def)
  from execute_task_unregistered [OF h, of 1 2 3 4 0] h show ?thesis by simp
qed

subsection \<open>Rollback\<close>

lemma find_record_update:
  assumes "exec_id r = exec_id (history exec i)"
  shows "find_record (exec\<lparr>history := (history exec)(i := r), total_rollbacks := n\<rparr>) eid
           = find_record exec eid"
  unfolding find_record_def using assms
  by (intro find_cong) auto

lemma rollback_OK_D:
  assumes "cls_action_rollback exec eid w = (CLS_OK, exec', w')"
  shows "\<exists>i. find_record exec eid = Some i \<and>
             exec' = exec\<lparr>history := (history exec)
                        (i := (history exec i)\<lparr>rolled_back := True, r_status := CLS_ACTION_ROLLEDBACK\<rparr>),
                      total_rollbacks := total_rollbacks exec + 1\<rparr>"
  using assms
  by (auto simp: cls_action_rollback_def Let_def CLS_IS_OK_def
      split: option.splits if_splits prod.splits)

text \<open>
  C5. Rollback returns NotFound when no used history slot holds the execution id;
  InvalidState when the record found for it is already rolled back; Invalid when that
  record is not rolled back and the handler of its action id has no rollback function.
  In each case the executor and the world are unchanged. And after an execute that
  returned OK, once a rollback of its execution id has returned OK, a second rollback
  of the same id returns InvalidState.
\<close>

theorem rollback_errors:
  "(no_record exec eid \<longrightarrow> cls_action_rollback exec eid w = (CLS_ERR_NOT_FOUND, exec, w)) \<and>
   (\<forall>i. holds_record exec eid i \<and> rolled_back (history exec i) \<longrightarrow>
      cls_action_rollback exec eid w = (CLS_ERR_STATE, exec, w)) \<and>
   (\<forall>i h. holds_record exec eid i \<and> \<not> rolled_back (history exec i) \<and>
          find_handler exec (r_action_id (history exec i)) = Some h \<and> rollback_fn h = None \<longrightarrow>
      cls_action_rollback exec eid w = (CLS_ERR_INVALID, exec, w)) \<and>
   (\<forall>action ps len t0 t1 w0 exec1 rec w1 exec2 w2.
      cls_action_execute exec action ps len t0 t1 w0 = Some (CLS_OK, exec1, Some rec, w1) \<and>
      cls_action_rollback exec1 (exec_id rec) w1 = (CLS_OK, exec2, w2) \<longrightarrow>
      cls_action_rollback exec2 (exec_id rec) w2 = (CLS_ERR_STATE, exec2, w2))"
proof (intro conjI allI impI)
  assume "no_record exec eid"
  then show "cls_action_rollback exec eid w = (CLS_ERR_NOT_FOUND, exec, w)"
    by (simp add: cls_action_rollback_def find_record_None [symmetric])
next
  fix i assume "holds_record exec eid i \<and> rolled_back (history exec i)"
  then show "cls_action_rollback exec eid w = (CLS_ERR_STATE, exec, w)"
    by (simp add: cls_action_rollback_def find_record_Some [symmetric])
next
  fix i h
  assume "holds_record exec eid i \<and> \<not> rolled_back (history exec i) \<and>
          find_handler exec (r_action_id (history exec i)) = Some h \<and> rollback_fn h = None"
  then show "cls_action_rollback exec eid w = (CLS_ERR_INVALID, exec, w)"
    by (simp add: cls_action_rollback_def find_record_Some [symmetric])
next
  fix action ps len t0 t1 w0 exec1 rec w1 exec2 w2
  assume a: "cls_action_execute exec action ps len t0 t1 w0 = Some (CLS_OK, exec1, Some rec, w1) \<and>
      cls_action_rollback exec1 (exec_id rec) w1 = (CLS_OK, exec2, w2)"
  then have "cls_action_rollback exec1 (exec_id rec) w1 = (CLS_OK, exec2, w2)" by simp
  from rollback_OK_D [OF this] obtain i where i: "find_record exec1 (exec_id rec) = Some i"
    and e2: "exec2 = exec1\<lparr>history := (history exec1)
                        (i := (history exec1 i)\<lparr>rolled_back := True, r_status := CLS_ACTION_ROLLEDBACK\<rparr>),
                      total_rollbacks := total_rollbacks exec1 + 1\<rparr>"
    by blast
  have "find_record exec2 (exec_id rec) = Some i"
    unfolding e2 using i by (simp add: find_record_update)
  moreover have "rolled_back (history exec2 i)"
    unfolding e2 by simp
  ultimately show "cls_action_rollback exec2 (exec_id rec) w2 = (CLS_ERR_STATE, exec2, w2)"
    by (simp add: cls_action_rollback_def)
qed

lemma execute_ok_example:
  "cls_action_execute (exec_with_history 32) 1 None 0 3 4 0 =
     Some (CLS_OK,
           (exec_with_history 32)
             \<lparr>history := (\<lambda>_. zero_record)
                 (0 := \<lparr>exec_id = 1, r_action_id = 1, r_status = CLS_ACTION_SUCCESS, r_started_at = 3,
                        r_completed_at = 4, duration_us = 1, result_code = 0, rolled_back = False\<rparr>),
              history_count := 1, next_exec_id := 2, total_executed := 1, total_success := 1\<rparr>,
           Some \<lparr>exec_id = 1, r_action_id = 1, r_status = CLS_ACTION_SUCCESS, r_started_at = 3,
                 r_completed_at = 4, duration_us = 1, result_code = 0, rolled_back = False\<rparr>,
           1)"
  by (simp add: exec_with_history_eq cls_action_execute_def find_handler_def handler_ok_def
      handler_fail_def action_ok_fn_def record_action_def CLS_IS_OK_def zero_record_def Let_def)

text \<open>
  On the executor of the test suite: id 5 was never issued; action 1 is executed, rolled
  back, and rolled back again.
\<close>

theorem rollback_errors_witness:
  "cls_action_rollback (exec_with_history 32) 5 0 = (CLS_ERR_NOT_FOUND, exec_with_history 32, 0) \<and>
   (\<exists>e1 r1 e2.
      cls_action_execute (exec_with_history 32) 1 None 0 3 4 0 = Some (CLS_OK, e1, Some r1, 1) \<and>
      cls_action_rollback e1 (exec_id r1) 1 = (CLS_OK, e2, 2) \<and>
      cls_action_rollback e2 (exec_id r1) 2 = (CLS_ERR_STATE, e2, 2))"
proof -
  let ?e = "exec_with_history 32 :: (unit, nat) cls_action_exec"
  note inst = rollback_errors [of ?e 5 0]
  have "no_record ?e 5"
    by (simp add: no_record_def exec_with_history_eq)
  with inst have first: "cls_action_rollback ?e 5 0 = (CLS_ERR_NOT_FOUND, ?e, 0)"
    by blast
  obtain e1 r1 where
    ex: "cls_action_execute ?e 1 None 0 3 4 0 = Some (CLS_OK, e1, Some r1, 1)"
    and id: "exec_id r1 = 1"
    and e1: "e1 = ?e\<lparr>history := (\<lambda>_. zero_record)(0 := r1),
              history_count := 1, next_exec_id := 2, total_executed := 1, total_success := 1\<rparr>"
    and r1: "\<not> rolled_back r1" "r_action_id r1 = 1"
    by (simp add: execute_ok_example)
  have fr: "find_record e1 1 = Some 0"
    by (simp add: e1 find_record_def id exec_with_history_eq)
  have slot: "history e1 0 = r1"
    by (simp add: e1)
  have fh: "find_handler e1 1 = Some handler_ok"
    by (simp add: e1 exec_with_history_eq find_handler_def handler_ok_def)
  obtain e2 where rb: "cls_action_rollback e1 (exec_id r1) 1 = (CLS_OK, e2, 2)"
    by (simp add: cls_action_rollback_def id fr slot fh r1 Let_def handler_ok_def
        action_rb_fn_def CLS_IS_OK_def)
  from inst ex rb have "cls_action_rollback e2 (exec_id r1) 2 = (CLS_ERR_STATE, e2, 2)"
    by blast
  with first ex rb show ?thesis by blast
qed

subsection \<open>The history when it is full\<close>

text \<open>
  Once \<open>history_count\<close> has reached \<open>max_history\<close> it stays there, and the slot written
  is \<^verbatim>\<open>max_history % max_history = 0\<close> every time.
\<close>

lemma record_action_when_full:
  assumes "max_history exec \<noteq> 0" and "history_count exec = max_history exec"
  shows "record_action exec rec = Some (exec\<lparr>history := (history exec)(0 := rec)\<rparr>)"
  using assms by (simp add: record_action_def)

lemma record_action_stays_full:
  assumes "max_history exec \<noteq> 0" and "history_count exec = max_history exec"
    and "record_action exec rec = Some exec'"
  shows "history_count exec' = max_history exec' \<and> max_history exec' = max_history exec"
  using assms by (auto simp: record_action_def)

text \<open>
  C8. With history capacity 2, three executions leave the records of the second and
  third (the first is gone), as the scenario of the specification says. The fourth
  execution is written to slot \<^verbatim>\<open>2 % 2 = 0\<close> again: it replaces the third record, the
  newest, and the second, the oldest one retained, stays. The history is not circular
  once it is full.
\<close>

theorem history_full_overwrites_slot_zero:
  "fst (cls_action_get_record (fst (the (execute_times 3 (exec_with_history 2) 0))) 1) = CLS_ERR_NOT_FOUND \<and>
   fst (cls_action_get_record (fst (the (execute_times 3 (exec_with_history 2) 0))) 2) = CLS_OK \<and>
   fst (cls_action_get_record (fst (the (execute_times 3 (exec_with_history 2) 0))) 3) = CLS_OK \<and>
   fst (cls_action_get_record (fst (the (execute_times 4 (exec_with_history 2) 0))) 1) = CLS_ERR_NOT_FOUND \<and>
   fst (cls_action_get_record (fst (the (execute_times 4 (exec_with_history 2) 0))) 2) = CLS_OK \<and>
   fst (cls_action_get_record (fst (the (execute_times 4 (exec_with_history 2) 0))) 3) = CLS_ERR_NOT_FOUND \<and>
   fst (cls_action_get_record (fst (the (execute_times 4 (exec_with_history 2) 0))) 4) = CLS_OK"
  by code_simp

subsection \<open>Replanning\<close>

lemma collect_fallback_eq:
  "length acc \<le> 64 \<Longrightarrow>
   collect_fallback fl ts acc =
     acc @ map (fallback_decision fl) (take (64 - length acc) (filter unresolved ts))"
proof (induction ts arbitrary: acc)
  case Nil
  then show ?case by simp
next
  case (Cons t ts)
  show ?case
  proof (cases "length acc < 64")
    case False
    with Cons.prems have "length acc = 64" by simp
    then show ?thesis by simp
  next
    case True
    show ?thesis
    proof (cases "unresolved t")
      case False
      with True Cons show ?thesis by (simp add: unresolved_def)
    next
      case u: True
      from True have le: "length (acc @ [fallback_decision fl t]) \<le> 64" by simp
      from True obtain m where m: "64 - length acc = Suc m"
        by (cases "64 - length acc") auto
      then have m': "64 - length (acc @ [fallback_decision fl t]) = m" by simp
      from True u have "collect_fallback fl (t # ts) acc
           = collect_fallback fl ts (acc @ [fallback_decision fl t])"
        by (simp add: unresolved_def)
      also note Cons.IH [OF le]
      finally show ?thesis using u by (simp only: m m' filter.simps take_Suc_Cons list.map append_assoc append_Cons append_Nil if_True)
    qed
  qed
qed

lemma collect_fallback_start:
  "collect_fallback fl ts [] = map (fallback_decision fl) (take 64 (filter unresolved ts))"
  using collect_fallback_eq [of "[]" fl ts] by simp

text \<open>
  C9. Replanning is not atomic. When the plan table is full and the plan has at least
  one pending or failed task, replan returns Overflow (from the generator) and no new
  plan, yet the old plan has been marked Cancelled; nothing else in the planner changes.
\<close>

theorem replan_overflow_cancels:
  assumes "max_plans p \<le> plan_count p"
    and "list_ex unresolved (tasks (plans p k))"
  shows "cls_planner_replan fl p k now alloc_ok =
           Some (CLS_ERR_OVERFLOW,
                 p\<lparr>plans := (plans p)(k := (plans p k)\<lparr>p_status := CLS_PLAN_CANCELLED\<rparr>)\<rparr>,
                 None)"
proof -
  from assms(2) have "filter unresolved (tasks (plans p k)) \<noteq> []"
    by (simp add: filter_empty_conv list_ex_iff)
  then have "collect_fallback fl (tasks (plans p k)) [] \<noteq> []"
    by (simp add: collect_fallback_start)
  then show ?thesis
    using assms(1)
    by (simp add: cls_planner_replan_def cls_planner_generate_def Let_def)
qed

theorem replan_overflow_cancels_witness:
  "max_plans planner_full \<le> plan_count planner_full \<and>
   list_ex unresolved (tasks (plans planner_full 0)) \<and>
   p_status (plans planner_full 0) = CLS_PLAN_FAILED \<and>
   cls_planner_replan exact_ops planner_full 0 9 True =
     Some (CLS_ERR_OVERFLOW,
           planner_full\<lparr>plans := (plans planner_full)
                           (0 := (plans planner_full 0)\<lparr>p_status := CLS_PLAN_CANCELLED\<rparr>)\<rparr>,
           None)"
proof -
  have h1: "max_plans planner_full \<le> plan_count planner_full"
    by (simp add: planner_full_def planner_failed_def planner0_def)
  have h2: "list_ex unresolved (tasks (plans planner_full 0))"
    by (simp add: planner_full_def planner_failed_def planner0_def unresolved_def task_failed_def)
  have h3: "p_status (plans planner_full 0) = CLS_PLAN_FAILED"
    by (simp add: planner_full_def planner_failed_def planner0_def)
  from replan_overflow_cancels [OF h1 h2, of exact_ops 9 True] h1 h2 h3 show ?thesis by simp
qed

text \<open>
  C6, as the code has it. Replan collects, in task order, the pending or failed tasks of
  the plan, but at most the first 64 of them (the size of its decision array). Each
  collected task gives one decision with the task's action id, priority and parameters
  and with confidence \<open>reward_estimate \<times> 0.8\<close>. With no such task it returns NotFound and
  leaves the planner unchanged; otherwise it marks the old plan Cancelled and its result
  is that of the generator on the collected batch. In particular, for a plan of the
  table whose only task is Failed, with a free slot and a discounted confidence that
  passes the filter, the result is OK, the old plan is Cancelled and the new plan has
  one task whose reward estimate is the old one times 0.8.
\<close>

theorem replan_collects:
  "(\<forall>t. d_action_id (fallback_decision fl t) = t_action_id t \<and>
        confidence (fallback_decision fl t) = f_mul fl (reward_estimate t) (f_lit_0_8 fl) \<and>
        d_priority (fallback_decision fl t) = priority t \<and>
        d_params (fallback_decision fl t) = params t \<and>
        d_params_len (fallback_decision fl t) = params_len t) \<and>
   (filter unresolved (tasks (plans p k)) = [] \<longrightarrow>
      cls_planner_replan fl p k now alloc_ok = Some (CLS_ERR_NOT_FOUND, p, None)) \<and>
   (filter unresolved (tasks (plans p k)) \<noteq> [] \<longrightarrow>
      cls_planner_replan fl p k now alloc_ok =
        cls_planner_generate fl
          (p\<lparr>plans := (plans p)(k := (plans p k)\<lparr>p_status := CLS_PLAN_CANCELLED\<rparr>)\<rparr>)
          (Some (map (fallback_decision fl) (take 64 (filter unresolved (tasks (plans p k))))))
          now alloc_ok) \<and>
   (\<forall>t. tasks (plans p k) = [t] \<and> t_status t = CLS_PLAN_FAILED \<and>
        plan_count p < max_plans p \<and> k < unat (plan_count p) \<and>
        survives fl (fallback_decision fl t) \<longrightarrow>
      (\<exists>p'. cls_planner_replan fl p k now True = Some (CLS_OK, p', Some (unat (plan_count p))) \<and>
            p_status (plans p' k) = CLS_PLAN_CANCELLED \<and>
            map reward_estimate (tasks (plans p' (unat (plan_count p))))
              = [f_mul fl (reward_estimate t) (f_lit_0_8 fl)]))"
proof (intro conjI allI impI)
  fix t :: "('a, 'b) cls_task"
  show "d_action_id (fallback_decision fl t) = t_action_id t"
    and "confidence (fallback_decision fl t) = f_mul fl (reward_estimate t) (f_lit_0_8 fl)"
    and "d_priority (fallback_decision fl t) = priority t"
    and "d_params (fallback_decision fl t) = params t"
    and "d_params_len (fallback_decision fl t) = params_len t"
    by (simp_all add: fallback_decision_def)
next
  assume "filter unresolved (tasks (plans p k)) = []"
  then show "cls_planner_replan fl p k now alloc_ok = Some (CLS_ERR_NOT_FOUND, p, None)"
    by (simp add: cls_planner_replan_def collect_fallback_start)
next
  assume "filter unresolved (tasks (plans p k)) \<noteq> []"
  then show "cls_planner_replan fl p k now alloc_ok =
        cls_planner_generate fl
          (p\<lparr>plans := (plans p)(k := (plans p k)\<lparr>p_status := CLS_PLAN_CANCELLED\<rparr>)\<rparr>)
          (Some (map (fallback_decision fl) (take 64 (filter unresolved (tasks (plans p k))))))
          now alloc_ok"
    by (simp add: cls_planner_replan_def collect_fallback_start)
next
  fix t
  assume a: "tasks (plans p k) = [t] \<and> t_status t = CLS_PLAN_FAILED \<and>
        plan_count p < max_plans p \<and> k < unat (plan_count p) \<and>
        survives fl (fallback_decision fl t)"
  let ?p1 = "p\<lparr>plans := (plans p)(k := (plans p k)\<lparr>p_status := CLS_PLAN_CANCELLED\<rparr>)\<rparr>"
  let ?ds = "[fallback_decision fl t]"
  from a have coll: "collect_fallback fl (tasks (plans p k)) [] = ?ds"
    by (simp add: collect_fallback_start unresolved_def)
  have h1: "?ds \<noteq> []" by simp
  have h2: "length ?ds < 2 ^ 31" by simp
  from a have h3: "plan_count ?p1 < max_plans ?p1" by simp
  from a have ne: "k \<noteq> unat (plan_count p)" by simp
  have "cls_planner_replan fl p k now True = cls_planner_generate fl ?p1 (Some ?ds) now True"
    by (simp add: cls_planner_replan_def coll)
  also note generate_accepted [OF h1 h2 h3, of fl now]
  finally have eq: "cls_planner_replan fl p k now True =
      Some (CLS_OK,
            ?p1\<lparr>plans := (plans ?p1)(unat (plan_count ?p1) := generated_plan fl ?p1 ?ds now),
                 plan_count := plan_count ?p1 + 1, plans_generated := plans_generated ?p1 + 1\<rparr>,
            Some (unat (plan_count ?p1)))" .
  show "\<exists>p'. cls_planner_replan fl p k now True = Some (CLS_OK, p', Some (unat (plan_count p))) \<and>
            p_status (plans p' k) = CLS_PLAN_CANCELLED \<and>
            map reward_estimate (tasks (plans p' (unat (plan_count p))))
              = [f_mul fl (reward_estimate t) (f_lit_0_8 fl)]"
    unfolding eq using a ne
    by (simp add: generated_plan_def task_of_decision_def fallback_decision_def)
qed

text \<open>In exact arithmetic, a failed task of reward 0.5 is replanned with reward 0.4.\<close>

theorem replan_collects_witness:
  "\<exists>p'. cls_planner_replan exact_ops planner_failed 0 9 True = Some (CLS_OK, p', Some 1) \<and>
        p_status (plans p' 0) = CLS_PLAN_CANCELLED \<and>
        map reward_estimate (tasks (plans p' 1)) = [2 / 5]"
proof -
  have h: "tasks (plans planner_failed 0) = [task_failed] \<and> t_status task_failed = CLS_PLAN_FAILED \<and>
        plan_count planner_failed < max_plans planner_failed \<and> 0 < unat (plan_count planner_failed) \<and>
        survives exact_ops (fallback_decision exact_ops task_failed)"
    by (simp add: planner_failed_def planner0_def task_failed_def task_a_def survives_def
        fallback_decision_def exact_ops_def)
  from replan_collects [of exact_ops planner_failed 0 9 True,
      THEN conjunct2, THEN conjunct2, THEN conjunct2, rule_format, OF h]
  obtain p' where
    "cls_planner_replan exact_ops planner_failed 0 9 True
       = Some (CLS_OK, p', Some (unat (plan_count planner_failed)))"
    "p_status (plans p' 0) = CLS_PLAN_CANCELLED"
    "map reward_estimate (tasks (plans p' (unat (plan_count planner_failed))))
       = [f_mul exact_ops (reward_estimate task_failed) (f_lit_0_8 exact_ops)]"
    by (elim exE conjE)
  then show ?thesis
    by (intro exI [of _ p'])
       (simp add: planner_failed_def planner0_def task_failed_def exact_ops_def)
qed

text \<open>
  That every pending or failed task is collected, as the specification says, fails on a
  plan of 65 pending tasks: the new plan has 64 tasks.
\<close>

theorem replan_drops_tasks_beyond_64:
  "tasks (plans planner65 0) = replicate 65 task_a \<and>
   unresolved task_a \<and>
   fst (the (cls_planner_replan exact_ops planner65 0 0 True)) = CLS_OK \<and>
   length (tasks (plans (fst (snd (the (cls_planner_replan exact_ops planner65 0 0 True)))) 1)) = 64"
proof -
  have a: "tasks (plans planner65 0) = replicate 65 task_a"
    by (simp add: planner65_def)
  have b: "unresolved task_a"
    by (simp add: unresolved_def task_a_def)
  have c: "fst (the (cls_planner_replan exact_ops planner65 0 0 True)) = CLS_OK"
    by code_simp
  have d: "length (tasks (plans (fst (snd (the (cls_planner_replan exact_ops planner65 0 0 True)))) 1)) = 64"
    by code_simp
  from a b c d show ?thesis by simp
qed

subsection \<open>Task selection\<close>

lemma deps_met_candidate:
  "i < length (tasks plan) \<Longrightarrow>
   candidate plan i =
     (t_status (tasks plan ! i) = CLS_PLAN_PENDING \<and> deps_met plan (tasks plan ! i))"
  by (simp add: candidate_def deps_met_def found_complete_def [abs_def])

lemma best_among_step:
  assumes inv: "best_among plan k b" and k: "k < length (tasks plan)"
  shows "best_among plan (Suc k)
           (let t = tasks plan ! k in
            if t_status t \<noteq> CLS_PLAN_PENDING then b
            else if \<not> deps_met plan t then b
            else (case b of None \<Rightarrow> Some k
                  | Some i \<Rightarrow> if priority t > priority (tasks plan ! i) then Some k else b))"
proof (cases "candidate plan k")
  case False
  with inv k show ?thesis
    by (cases b) (auto simp: best_among_def deps_met_candidate Let_def list_all_iff list_ex_iff
        less_Suc_eq)
next
  case True
  with k have pend: "t_status (tasks plan ! k) = CLS_PLAN_PENDING" "deps_met plan (tasks plan ! k)"
    by (simp_all add: deps_met_candidate)
  show ?thesis
  proof (cases b)
    case None
    with inv True pend show ?thesis
      by (auto simp: best_among_def Let_def list_all_iff list_ex_iff less_Suc_eq)
  next
    case (Some i)
    show ?thesis
    proof (cases "priority (tasks plan ! k) > priority (tasks plan ! i)")
      case gt: True
      have "\<And>j. j < k \<Longrightarrow> candidate plan j \<Longrightarrow>
              priority (tasks plan ! j) \<le> priority (tasks plan ! k) \<and>
              priority (tasks plan ! j) \<noteq> priority (tasks plan ! k)"
      proof -
        fix j assume "j < k" "candidate plan j"
        with inv Some have "priority (tasks plan ! j) \<le> priority (tasks plan ! i)"
          by (auto simp: best_among_def list_all_iff)
        with gt show "priority (tasks plan ! j) \<le> priority (tasks plan ! k) \<and>
              priority (tasks plan ! j) \<noteq> priority (tasks plan ! k)"
          by auto
      qed
      with True pend gt Some show ?thesis
        by (auto simp: best_among_def Let_def list_all_iff less_Suc_eq)
    next
      case ngt: False
      then have le: "priority (tasks plan ! k) \<le> priority (tasks plan ! i)" by simp
      from inv Some have "i < k" by (simp add: best_among_def)
      with inv Some pend ngt le show ?thesis
        by (auto simp: best_among_def Let_def list_all_iff less_Suc_eq)
    qed
  qed
qed

lemma next_scan_best:
  "best_among plan k b \<Longrightarrow> k + m = n \<Longrightarrow> n \<le> length (tasks plan) \<Longrightarrow>
   best_among plan n (next_scan plan [k ..< n] b)"
proof (induction m arbitrary: k b)
  case 0
  then show ?case by simp
next
  case (Suc m)
  then have k: "k < length (tasks plan)" and kn: "k < n" by simp_all
  from kn have upt: "[k ..< n] = k # [Suc k ..< n]" by (simp add: upt_conv_Cons)
  let ?b' = "(let t = tasks plan ! k in
            if t_status t \<noteq> CLS_PLAN_PENDING then b
            else if \<not> deps_met plan t then b
            else (case b of None \<Rightarrow> Some k
                  | Some i \<Rightarrow> if priority t > priority (tasks plan ! i) then Some k else b))"
  have step: "best_among plan (Suc k) ?b'"
    using best_among_step [OF Suc.prems(1) k] .
  have "next_scan plan [k ..< n] b = next_scan plan [Suc k ..< n] ?b'"
    unfolding upt by (simp add: Let_def split: option.splits)
  moreover have "best_among plan n (next_scan plan [Suc k ..< n] ?b')"
    using Suc.IH [OF step] Suc.prems by simp
  ultimately show ?case by simp
qed

lemma next_task_best:
  "best_among plan (length (tasks plan)) (snd (cls_plan_next_task plan)) \<and>
   fst (cls_plan_next_task plan) =
     (case snd (cls_plan_next_task plan) of None \<Rightarrow> CLS_ERR_NOT_FOUND | Some i \<Rightarrow> CLS_OK)"
proof -
  have "best_among plan 0 None" by (simp add: best_among_def)
  from next_scan_best [OF this, of "length (tasks plan)" "length (tasks plan)"]
  have "best_among plan (length (tasks plan)) (next_scan plan [0 ..< length (tasks plan)] None)"
    by simp
  then show ?thesis
    by (auto simp: cls_plan_next_task_def split: option.splits)
qed

text \<open>
  C2. \<open>next_task\<close> returns either OK with a task or NotFound with none. A returned task
  is a candidate: it is pending and every id in its dependency set is the id of a
  complete task of the same plan (an id that names no task of the plan makes the task
  ineligible). No candidate has a higher priority than the returned task, and no
  candidate of equal priority comes before it in the task array. NotFound is returned
  exactly when the plan has no candidate.
\<close>

theorem next_task_selection:
  "(case cls_plan_next_task plan of
      (status, None) \<Rightarrow> status = CLS_ERR_NOT_FOUND \<and> (\<forall>j. \<not> candidate plan j)
    | (status, Some i) \<Rightarrow>
        status = CLS_OK \<and> candidate plan i \<and>
        (\<forall>j. candidate plan j \<longrightarrow>
           priority (tasks plan ! j) \<le> priority (tasks plan ! i) \<and>
           (priority (tasks plan ! j) = priority (tasks plan ! i) \<longrightarrow> i \<le> j)))"
proof (cases "snd (cls_plan_next_task plan)")
  case None
  with next_task_best [of plan]
  have "fst (cls_plan_next_task plan) = CLS_ERR_NOT_FOUND"
    and "\<not> list_ex (candidate plan) [0 ..< length (tasks plan)]"
    by (simp_all add: best_among_def)
  moreover from this(2) have "\<forall>j. \<not> candidate plan j"
    by (auto simp: list_ex_iff candidate_def)
  ultimately show ?thesis using None
    by (cases "cls_plan_next_task plan") simp
next
  case (Some i)
  with next_task_best [of plan]
  have st: "fst (cls_plan_next_task plan) = CLS_OK"
    and c: "candidate plan i"
    and all: "list_all (\<lambda>j. candidate plan j \<longrightarrow>
                      priority (tasks plan ! j) \<le> priority (tasks plan ! i) \<and>
                      (priority (tasks plan ! j) = priority (tasks plan ! i) \<longrightarrow> i \<le> j))
            [0 ..< length (tasks plan)]"
    by (simp_all add: best_among_def)
  have "\<forall>j. candidate plan j \<longrightarrow>
           priority (tasks plan ! j) \<le> priority (tasks plan ! i) \<and>
           (priority (tasks plan ! j) = priority (tasks plan ! i) \<longrightarrow> i \<le> j)"
  proof (intro allI impI)
    fix j assume cj: "candidate plan j"
    then have "j \<in> set [0 ..< length (tasks plan)]" by (simp add: candidate_def)
    with all cj show "priority (tasks plan ! j) \<le> priority (tasks plan ! i) \<and>
           (priority (tasks plan ! j) = priority (tasks plan ! i) \<longrightarrow> i \<le> j)"
      by (auto simp: list_all_iff)
  qed
  with st c Some show ?thesis
    by (cases "cls_plan_next_task plan") simp
qed

text \<open>
  On \<open>plan_four\<close> the task of highest priority waits for an id that names no task and
  is passed over; of the two candidates of priority 2 the first is returned.
\<close>

lemma next_task_plan_four: "cls_plan_next_task plan_four = (CLS_OK, Some 2)"
  by code_simp

theorem next_task_selection_witness:
  "cls_plan_next_task plan_four = (CLS_OK, Some 2) \<and>
   candidate plan_four 2 \<and> candidate plan_four 1 \<and> candidate plan_four 4 \<and>
   \<not> candidate plan_four 3 \<and>
   priority (tasks plan_four ! 4) \<le> priority (tasks plan_four ! 2) \<and>
   priority (tasks plan_four ! 1) \<le> priority (tasks plan_four ! 2) \<and>
   priority (tasks plan_four ! 3) > priority (tasks plan_four ! 2)"
proof -
  have c4: "candidate plan_four 4" by code_simp
  have c1: "candidate plan_four 1" by code_simp
  have n3: "\<not> candidate plan_four 3" by code_simp
  have p3: "priority (tasks plan_four ! 3) > priority (tasks plan_four ! 2)" by code_simp
  from next_task_selection [of plan_four]
  have "candidate plan_four 2 \<and>
        (\<forall>j. candidate plan_four j \<longrightarrow>
           priority (tasks plan_four ! j) \<le> priority (tasks plan_four ! 2) \<and>
           (priority (tasks plan_four ! j) = priority (tasks plan_four ! 2) \<longrightarrow> 2 \<le> j))"
    by (simp add: next_task_plan_four)
  with c4 c1 n3 p3 show ?thesis
    by (simp add: next_task_plan_four)
qed

subsection \<open>Task completion\<close>

lemma first_index_None: "(first_index P xs = None) = (\<not> list_ex P xs)"
  by (induction xs) (auto split: option.splits)

lemma first_index_Some:
  "(first_index P xs = Some i) = (i < length xs \<and> P (xs ! i) \<and> \<not> list_ex P (take i xs))"
proof (induction xs arbitrary: i)
  case Nil
  then show ?case by simp
next
  case (Cons x xs)
  show ?case
  proof (cases i)
    case 0
    then show ?thesis by (auto split: option.splits)
  next
    case (Suc k)
    with Cons [of k] show ?thesis by (auto split: option.splits)
  qed
qed

lemma first_index_id: "(first_index (\<lambda>t. task_id t = tid) ts = Some i) = first_with_id ts tid i"
  by (simp add: first_index_Some first_with_id_def)

lemma all_done_terminal: "all_done ts = list_all terminal ts"
  by (simp add: all_done_def terminal_def [abs_def])

lemma complete_task_found:
  assumes "first_with_id (tasks plan) tid i"
  shows "cls_plan_complete_task plan tid success now =
           (CLS_OK,
            plan\<lparr>tasks := (tasks plan)[i := (tasks plan ! i)
                      \<lparr>t_status := (if success then CLS_PLAN_COMPLETE else CLS_PLAN_FAILED),
                       completed_at := now\<rparr>],
                 p_status := aggregate_status
                    ((tasks plan)[i := (tasks plan ! i)
                      \<lparr>t_status := (if success then CLS_PLAN_COMPLETE else CLS_PLAN_FAILED),
                       completed_at := now\<rparr>])
                    (p_status plan)\<rparr>)"
  using assms
  by (simp add: cls_plan_complete_task_def first_index_id [symmetric] Let_def
      all_done_terminal any_failed_def aggregate_status_def)

lemma first_with_id_update:
  assumes "first_with_id ts tid i"
  shows "first_with_id (ts[i := (ts ! i)\<lparr>t_status := s, completed_at := n\<rparr>]) tid i"
  using assms by (simp add: first_with_id_def)

lemma terminal_map: "list_all terminal ts
    = list_all (\<lambda>s. s \<noteq> CLS_PLAN_PENDING \<and> s \<noteq> CLS_PLAN_ACTIVE) (map t_status ts)"
  by (induction ts) (auto simp: terminal_def)

lemma failed_map: "list_ex (\<lambda>t. t_status t = CLS_PLAN_FAILED) ts
    = list_ex (\<lambda>s. s = CLS_PLAN_FAILED) (map t_status ts)"
  by (induction ts) auto

lemma aggregate_status_cong:
  "map t_status ts = map t_status ts' \<Longrightarrow> aggregate_status ts b = aggregate_status ts' b"
  by (simp add: aggregate_status_def terminal_map failed_map)

lemma aggregate_status_idem:
  "aggregate_status ts (aggregate_status ts b) = aggregate_status ts b"
  by (simp add: aggregate_status_def)

text \<open>
  C3. \<open>complete_task\<close> returns NotFound and leaves the plan as it is when no task has
  the id. Otherwise it returns OK; the first task with the id gets status Complete
  (success) or Failed (no success) and \<open>completed_at\<close> stamped, no other task changes,
  and the plan's status becomes Complete when every task is terminal and none is
  Failed, Failed when every task is terminal and one is Failed, and stays what it was
  (Active for an active plan) otherwise. A second call for the same task id is accepted
  again: it returns OK, stamps \<open>completed_at\<close> anew and aggregates by the same rule;
  with the same outcome flag the task statuses and the plan status stay as they were.
\<close>

theorem complete_task_outcome:
  "(\<not> list_ex (\<lambda>t. task_id t = tid) (tasks plan) \<longrightarrow>
      cls_plan_complete_task plan tid success now = (CLS_ERR_NOT_FOUND, plan)) \<and>
   (\<forall>i. first_with_id (tasks plan) tid i \<longrightarrow>
      (\<exists>plan'.
         cls_plan_complete_task plan tid success now = (CLS_OK, plan') \<and>
         tasks plan' = (tasks plan)[i := (tasks plan ! i)
                          \<lparr>t_status := (if success then CLS_PLAN_COMPLETE else CLS_PLAN_FAILED),
                           completed_at := now\<rparr>] \<and>
         p_status plan' = aggregate_status (tasks plan') (p_status plan) \<and>
         (\<forall>success2 now2. \<exists>plan''.
            cls_plan_complete_task plan' tid success2 now2 = (CLS_OK, plan'') \<and>
            tasks plan'' = (tasks plan')[i := (tasks plan' ! i)
                          \<lparr>t_status := (if success2 then CLS_PLAN_COMPLETE else CLS_PLAN_FAILED),
                           completed_at := now2\<rparr>] \<and>
            p_status plan'' = aggregate_status (tasks plan'') (p_status plan') \<and>
            (success2 = success \<longrightarrow>
               map t_status (tasks plan'') = map t_status (tasks plan') \<and>
               p_status plan'' = p_status plan'))))"
proof (intro conjI allI impI)
  assume "\<not> list_ex (\<lambda>t. task_id t = tid) (tasks plan)"
  then show "cls_plan_complete_task plan tid success now = (CLS_ERR_NOT_FOUND, plan)"
    by (simp add: cls_plan_complete_task_def first_index_None [symmetric])
next
  fix i assume f: "first_with_id (tasks plan) tid i"
  let ?ts = "(tasks plan)[i := (tasks plan ! i)
                          \<lparr>t_status := (if success then CLS_PLAN_COMPLETE else CLS_PLAN_FAILED),
                           completed_at := now\<rparr>]"
  let ?plan' = "plan\<lparr>tasks := ?ts, p_status := aggregate_status ?ts (p_status plan)\<rparr>"
  from f have i: "i < length (tasks plan)" by (simp add: first_with_id_def)
  have f': "first_with_id (tasks ?plan') tid i"
    using first_with_id_update [OF f] by simp
  have second: "\<exists>plan''.
            cls_plan_complete_task ?plan' tid success2 now2 = (CLS_OK, plan'') \<and>
            tasks plan'' = (tasks ?plan')[i := (tasks ?plan' ! i)
                          \<lparr>t_status := (if success2 then CLS_PLAN_COMPLETE else CLS_PLAN_FAILED),
                           completed_at := now2\<rparr>] \<and>
            p_status plan'' = aggregate_status (tasks plan'') (p_status ?plan') \<and>
            (success2 = success \<longrightarrow>
               map t_status (tasks plan'') = map t_status (tasks ?plan') \<and>
               p_status plan'' = p_status ?plan')" for success2 now2
  proof -
    let ?ts2 = "(tasks ?plan')[i := (tasks ?plan' ! i)
                          \<lparr>t_status := (if success2 then CLS_PLAN_COMPLETE else CLS_PLAN_FAILED),
                           completed_at := now2\<rparr>]"
    have same: "map t_status ?ts2 = map t_status ?ts" if "success2 = success"
      using that i by (simp add: map_update)
    have "aggregate_status ?ts2 (p_status ?plan') = p_status ?plan'" if "success2 = success"
      using aggregate_status_cong [OF same [OF that]] by (simp add: aggregate_status_idem)
    with same show ?thesis
      unfolding complete_task_found [OF f'] by simp
  qed
  show "\<exists>plan'.
         cls_plan_complete_task plan tid success now = (CLS_OK, plan') \<and>
         tasks plan' = ?ts \<and>
         p_status plan' = aggregate_status (tasks plan') (p_status plan) \<and>
         (\<forall>success2 now2. \<exists>plan''.
            cls_plan_complete_task plan' tid success2 now2 = (CLS_OK, plan'') \<and>
            tasks plan'' = (tasks plan')[i := (tasks plan' ! i)
                          \<lparr>t_status := (if success2 then CLS_PLAN_COMPLETE else CLS_PLAN_FAILED),
                           completed_at := now2\<rparr>] \<and>
            p_status plan'' = aggregate_status (tasks plan'') (p_status plan') \<and>
            (success2 = success \<longrightarrow>
               map t_status (tasks plan'') = map t_status (tasks plan') \<and>
               p_status plan'' = p_status plan'))"
    apply (rule exI [of _ ?plan'])
    apply (intro conjI allI)
       apply (rule complete_task_found [OF f])
      apply simp
     apply simp
    apply (rule second)
    done
qed


theorem complete_task_outcome_witness:
  "cls_plan_complete_task plan_two 3 True 5 = (CLS_ERR_NOT_FOUND, plan_two) \<and>
   (\<exists>plan' plan''.
      cls_plan_complete_task plan_two 1 True 5 = (CLS_OK, plan') \<and>
      map t_status (tasks plan') = [CLS_PLAN_COMPLETE, CLS_PLAN_PENDING] \<and>
      map completed_at (tasks plan') = [5, 0] \<and>
      p_status plan' = CLS_PLAN_ACTIVE \<and>
      cls_plan_complete_task plan' 1 True 7 = (CLS_OK, plan'') \<and>
      map t_status (tasks plan'') = [CLS_PLAN_COMPLETE, CLS_PLAN_PENDING] \<and>
      map completed_at (tasks plan'') = [7, 0] \<and>
      p_status plan'' = CLS_PLAN_ACTIVE)"
proof -
  have absent: "\<not> list_ex (\<lambda>t. task_id t = 3) (tasks plan_two)"
    by (simp add: plan_two_def)
  have present: "first_with_id (tasks plan_two) 1 0"
    by (simp add: plan_two_def first_with_id_def)
  from complete_task_outcome [of 3 plan_two True 5] absent
  have nf: "cls_plan_complete_task plan_two 3 True 5 = (CLS_ERR_NOT_FOUND, plan_two)"
    by (elim conjE) simp
  from complete_task_outcome [of 1 plan_two True 5, THEN conjunct2, rule_format, OF present]
  obtain plan' where
    c1: "cls_plan_complete_task plan_two 1 True 5 = (CLS_OK, plan')"
    and t1: "tasks plan' = (tasks plan_two)[0 := (tasks plan_two ! 0)
                          \<lparr>t_status := (if True then CLS_PLAN_COMPLETE else CLS_PLAN_FAILED),
                           completed_at := 5\<rparr>]"
    and s1: "p_status plan' = aggregate_status (tasks plan') (p_status plan_two)"
    and again: "\<forall>success2 now2. \<exists>plan''.
            cls_plan_complete_task plan' 1 success2 now2 = (CLS_OK, plan'') \<and>
            tasks plan'' = (tasks plan')[0 := (tasks plan' ! 0)
                          \<lparr>t_status := (if success2 then CLS_PLAN_COMPLETE else CLS_PLAN_FAILED),
                           completed_at := now2\<rparr>] \<and>
            p_status plan'' = aggregate_status (tasks plan'') (p_status plan') \<and>
            (success2 = True \<longrightarrow>
               map t_status (tasks plan'') = map t_status (tasks plan') \<and>
               p_status plan'' = p_status plan')"
    by (elim exE conjE)
  from again [rule_format, of True 7] obtain plan'' where
    c2: "cls_plan_complete_task plan' 1 True 7 = (CLS_OK, plan'')"
    and t2: "tasks plan'' = (tasks plan')[0 := (tasks plan' ! 0)
                          \<lparr>t_status := (if True then CLS_PLAN_COMPLETE else CLS_PLAN_FAILED),
                           completed_at := 7\<rparr>]"
    and s2: "p_status plan'' = p_status plan'"
    by (elim exE conjE) simp
  have tasks1: "map t_status (tasks plan') = [CLS_PLAN_COMPLETE, CLS_PLAN_PENDING]"
      "map completed_at (tasks plan') = [5, 0]"
    by (simp_all add: t1 plan_two_def task_a_def)
  have status1: "p_status plan' = CLS_PLAN_ACTIVE"
    by (simp add: s1 t1 plan_two_def task_a_def aggregate_status_def terminal_def)
  have tasks2: "map t_status (tasks plan'') = [CLS_PLAN_COMPLETE, CLS_PLAN_PENDING]"
      "map completed_at (tasks plan'') = [7, 0]"
    by (simp_all add: t2 t1 plan_two_def task_a_def)
  from nf c1 tasks1 status1 c2 tasks2 s2 show ?thesis
    by (intro conjI exI [of _ plan'] exI [of _ plan'']) simp_all
qed

end
